theory Spec2Isabelle
  imports Main
begin

section \<open>Context lookup and defaulting\<close>

text \<open>
  The CDK context is a dictionary from keys to values. \<open>--context prNumber=xxx\<close> stores
  the string \<open>xxx\<close> (possibly the empty string) under the key \<open>prNumber\<close>; the
  \<open>context\<close> object of \<open>cdk.json\<close> can hold any JSON value. The constructor uses a value in
  three ways only: its truth value in \<open>||\<close>, the strict comparison with the string
  \<open>default\<close>, and its text in a template literal. A value that is not a string (a number,
  a boolean, \<open>null\<close>, an array or an object) is therefore given by whether it is truthy and
  by the text a template literal makes of it.
\<close>

datatype js_value = JString string | JOther bool string

type_synonym "context" = "string \<rightharpoonup> js_value"

text \<open>\<open>node.tryGetContext(key)\<close>: the value, or \<open>undefined\<close> when the key is absent.\<close>

definition tryGetContext :: "context \<Rightarrow> string \<Rightarrow> js_value option" where
  "tryGetContext ctx key = ctx key"

text \<open>A string is truthy unless it is empty.\<close>

fun truthy :: "js_value \<Rightarrow> bool" where
  "truthy (JString s) = (s \<noteq> [])"
| "truthy (JOther t txt) = t"

text \<open>JavaScript's \<open>v || d\<close>, where \<open>undefined\<close> is falsy.\<close>

definition js_or :: "js_value option \<Rightarrow> js_value \<Rightarrow> js_value" where
  "js_or v d = (case v of None \<Rightarrow> d | Some x \<Rightarrow> if truthy x then x else d)"

text \<open>The text of a value inside a template literal.\<close>

fun template_text :: "js_value \<Rightarrow> string" where
  "template_text (JString s) = s"
| "template_text (JOther t txt) = txt"

text \<open>
  Lines 17 and 18 of the stack. \<open>!==\<close> is strict: only the string \<open>default\<close> is equal to
  \<open>'default'\<close>.
\<close>

definition prNumber_of :: "context \<Rightarrow> js_value" where
  "prNumber_of ctx = js_or (tryGetContext ctx ''prNumber'') (JString ''default'')"

definition prSuffix_of :: "js_value \<Rightarrow> string" where
  "prSuffix_of prNumber =
     (if prNumber \<noteq> JString ''default'' then ''-pr-'' @ template_text prNumber else '''')"

section \<open>Resource properties\<close>

datatype http_method = GET | PUT | HEAD | POST | DELETE

record cors_rule =
  allowedMethods :: "http_method list"
  allowedOrigins :: "string list"
  allowedHeaders :: "string list"

record block_public_access =
  blockPublicAcls :: bool
  blockPublicPolicy :: bool
  ignorePublicAcls :: bool
  restrictPublicBuckets :: bool

datatype removal_policy = DESTROY | RETAIN | SNAPSHOT

text \<open>
  A property value is a string assembled from literal text, from attributes of other
  constructs of the stack (\<open>mockApi.url\<close>, \<open>reviewsBucket.bucketName\<close>) and from the pseudo
  parameters of the deployment (\<open>AWS::AccountId\<close>, \<open>AWS::Region\<close>). Attributes and pseudo
  parameters are tokens: their text is only known at deployment. An attribute is named by
  the construct id and the attribute name.
\<close>

datatype part = Lit string | Attr string string | Pseudo string

type_synonym val = "part list"

fun is_lit :: "part \<Rightarrow> bool" where
  "is_lit (Lit s) = True"
| "is_lit p = False"

text \<open>\<open>Token.isUnresolved\<close>: the value holds a token.\<close>

definition isUnresolved :: "val \<Rightarrow> bool" where
  "isUnresolved v = (\<not> list_all is_lit v)"

text \<open>The text of a value once the deployment has given every token its text.\<close>

fun resolve_part :: "(part \<Rightarrow> string) \<Rightarrow> part \<Rightarrow> string" where
  "resolve_part tokens (Lit s) = s"
| "resolve_part tokens p = tokens p"

definition resolve :: "(part \<Rightarrow> string) \<Rightarrow> val \<Rightarrow> string" where
  "resolve tokens v = concat (map (resolve_part tokens) v)"

record bucket_props =
  bucketName :: val
  publicReadAccess :: bool
  blockPublicAccess :: block_public_access
  cors :: "cors_rule list"
  removalPolicy :: removal_policy
  autoDeleteObjects :: bool

datatype runtime = NODEJS_18_X | NODEJS_20_X | NODEJS_22_X

text \<open>
  \<open>lambda.Code\<close>: \<open>fromAsset\<close> names a directory on disk that is packaged at synthesis,
  \<open>fromInline\<close> carries handler source text in the stack itself.
\<close>

datatype code = FromAsset string | FromInline string

datatype time_unit = Seconds | Minutes | Hours | Days

datatype duration = Duration nat time_unit

fun unit_seconds :: "time_unit \<Rightarrow> nat" where
  "unit_seconds Seconds = 1"
| "unit_seconds Minutes = 60"
| "unit_seconds Hours = 3600"
| "unit_seconds Days = 86400"

fun toSeconds :: "duration \<Rightarrow> nat" where
  "toSeconds (Duration n u) = n * unit_seconds u"

record function_props =
  fn_runtime :: runtime
  fn_handler :: string
  functionName :: string
  fn_code :: code
  fn_environment :: "(string \<times> val) list"
  fn_timeout :: duration
  fn_memorySize :: nat
  fn_description :: string

record rest_api_props =
  api_handler :: string
  restApiName :: string
  api_description :: string
  api_proxy :: bool

datatype schedule = Rate duration | Cron string | Expression string

datatype target = LambdaFunction string

record rule_props =
  rule_schedule :: schedule
  rule_description :: string
  rule_targets :: "target list"

record output_props =
  out_value :: val
  out_description :: string

text \<open>
  The children a stack can have here: the five kinds of construct the constructor makes,
  and the provider of a custom resource, which the framework adds to the stack on behalf
  of a construct. A provider is named by the resource type it serves; it owns a role and a
  handler, and the handler is a Lambda function resource with code of the framework.
\<close>

datatype construct =
    Bucket bucket_props
  | Function function_props
  | LambdaRestApi rest_api_props
  | Rule rule_props
  | CfnOutput output_props
  | CustomResourceProvider string

datatype grant = GrantWrite string string

section \<open>What the constructor receives\<close>

text \<open>
  \<open>props.env\<close> of the stack: the account and the region, when they are given. The app
  entry point gives neither.
\<close>

record stack_props =
  env_account :: "string option"
  env_region :: "string option"

text \<open>
  \<open>this.account\<close> and \<open>this.region\<close>: the text given in \<open>props.env\<close>, else the token of
  the pseudo parameter.
\<close>

definition this_account :: "stack_props \<Rightarrow> part" where
  "this_account props = (case env_account props of None \<Rightarrow> Pseudo ''AWS::AccountId'' | Some a \<Rightarrow> Lit a)"

definition this_region :: "stack_props \<Rightarrow> part" where
  "this_region props = (case env_region props of None \<Rightarrow> Pseudo ''AWS::Region'' | Some r \<Rightarrow> Lit r)"

text \<open>
  What the constructor reads from the process it runs in: the working directory
  (\<open>process.cwd()\<close>) and, when an asset is staged, what is on disk at a path. The name the
  framework makes for a stack whose id is longer than 128 characters is a shortened id with
  a hash; it is taken as given.
\<close>

datatype path_kind = Directory | ZipFile | OtherFile

record process_env =
  cwd :: string
  path_kind :: "string \<Rightarrow> path_kind option"
  makeUniqueResourceName :: "string \<Rightarrow> string"

section \<open>Joining paths\<close>

text \<open>
  \<open>path.join\<close> of Node.js on POSIX: the arguments that are not empty are joined with
  \<open>/\<close> and the result is normalized. Normalization works on the segments between
  separators: empty segments and \<open>.\<close> are dropped, \<open>..\<close> removes the segment before
  it (and stays only in a relative path that has nothing left to remove), and a leading
  and a trailing separator are kept.
\<close>

fun split_slash :: "string \<Rightarrow> string list" where
  "split_slash [] = [[]]"
| "split_slash (c # cs) =
     (if c = CHR ''/'' then [] # split_slash cs
      else (case split_slash cs of [] \<Rightarrow> [[c]] | s # ss \<Rightarrow> (c # s) # ss))"

fun join_slash :: "string list \<Rightarrow> string" where
  "join_slash [] = []"
| "join_slash [s] = s"
| "join_slash (s # ss) = s @ ''/'' @ join_slash ss"

fun normalizeString :: "bool \<Rightarrow> string list \<Rightarrow> string list \<Rightarrow> string list" where
  "normalizeString allowAboveRoot res [] = res"
| "normalizeString allowAboveRoot res (s # ss) =
     (if s = [] \<or> s = ''.'' then normalizeString allowAboveRoot res ss
      else if s = ''..'' then
        (if res \<noteq> [] \<and> last res \<noteq> ''..'' then normalizeString allowAboveRoot (butlast res) ss
         else if allowAboveRoot then normalizeString allowAboveRoot (res @ [''..'']) ss
         else normalizeString allowAboveRoot res ss)
      else normalizeString allowAboveRoot (res @ [s]) ss)"

definition normalize_posix :: "string \<Rightarrow> string" where
  "normalize_posix path =
     (if path = [] then ''.''
      else (let isAbsolute = (hd path = CHR ''/'');
                trailingSeparator = (last path = CHR ''/'');
                p = join_slash (normalizeString (\<not> isAbsolute) [] (split_slash path))
            in if p = [] then (if isAbsolute then ''/'' else if trailingSeparator then ''./'' else ''.'')
               else (if isAbsolute then ''/'' else '''') @ p @ (if trailingSeparator then ''/'' else '''')))"

definition path_join :: "string list \<Rightarrow> string" where
  "path_join args =
     (let parts = filter (\<lambda>a. a \<noteq> []) args
      in if parts = [] then ''.'' else normalize_posix (join_slash parts))"

text \<open>
  A segment of a normalized path, as the segments of \<open>process.cwd()\<close> are: not empty,
  without separator, and neither \<open>.\<close> nor \<open>..\<close>.
\<close>

definition plain :: "string \<Rightarrow> bool" where
  "plain s = (s \<noteq> [] \<and> CHR ''/'' \<notin> set s \<and> s \<noteq> ''.'' \<and> s \<noteq> ''..'')"

section \<open>The checks of the framework\<close>

text \<open>
  The framework refuses some of what the constructor hands it, by throwing; the stack is
  then not constructed. Modelled are the checks whose outcome depends on what the
  constructor receives: the id and the name of the stack, the names of the bucket and the
  functions, the ids of the children and the asset directories. The constant properties
  of the constructor pass the checks made on them.
\<close>

datatype error =
    EmptyId
  | DuplicateId string
  | StackNameInvalidFormat string
  | InvalidBucketName string
  | FunctionNameTooLong string
  | InvalidFunctionName string
  | CannotFindAsset string
  | AssetNotDirectoryOrZip string

definition on_success :: "error + 'a \<Rightarrow> ('a \<Rightarrow> error + 'b) \<Rightarrow> error + 'b" where
  "on_success r f = (case r of Inl err \<Rightarrow> Inl err | Inr x \<Rightarrow> f x)"

definition lower_chars :: string where
  "lower_chars = ''abcdefghijklmnopqrstuvwxyz''"

definition upper_chars :: string where
  "upper_chars = ''ABCDEFGHIJKLMNOPQRSTUVWXYZ''"

definition digit_chars :: string where
  "digit_chars = ''0123456789''"

text \<open>A construct id has no path separator: each \<open>/\<close> becomes \<open>--\<close>.\<close>

definition sanitizeId :: "string \<Rightarrow> string" where
  "sanitizeId s = concat (map (\<lambda>c. if c = CHR ''/'' then ''--'' else [c]) s)"

text \<open>The name of a stack matches \<open>/^[A-Za-z][A-Za-z0-9-]*$/\<close>.\<close>

fun valid_stack_name :: "string \<Rightarrow> bool" where
  "valid_stack_name [] = False"
| "valid_stack_name (c # cs) =
     (c \<in> set (upper_chars @ lower_chars)
      \<and> list_all (\<lambda>x. x \<in> set (upper_chars @ lower_chars @ digit_chars @ ''-'')) cs)"

text \<open>
  The name of a function has at most 64 characters and matches \<open>/^[a-zA-Z0-9-_]+$/\<close>.
\<close>

definition valid_function_name_chars :: "string \<Rightarrow> bool" where
  "valid_function_name_chars n =
     (n \<noteq> [] \<and> list_all (\<lambda>x. x \<in> set (lower_chars @ upper_chars @ digit_chars @ ''-_'')) n)"

text \<open>
  The name of a bucket has 3 to 63 characters out of \<open>a-z\<close>, \<open>0-9\<close>, \<open>.\<close> and \<open>-\<close>,
  starts and ends with a letter or digit, has none of \<open>.-\<close>, \<open>-.\<close> and \<open>..\<close> in it and does
  not look like an IP address.
\<close>

fun contains :: "string \<Rightarrow> string \<Rightarrow> bool" where
  "contains p [] = (p = [])"
| "contains p (c # cs) = (take (length p) (c # cs) = p \<or> contains p cs)"

fun split_dot :: "string \<Rightarrow> string list" where
  "split_dot [] = [[]]"
| "split_dot (c # cs) =
     (if c = CHR ''.'' then [] # split_dot cs
      else (case split_dot cs of [] \<Rightarrow> [[c]] | s # ss \<Rightarrow> (c # s) # ss))"

definition ip_like :: "string \<Rightarrow> bool" where
  "ip_like n =
     (length (split_dot n) = 4
      \<and> list_all (\<lambda>g. 1 \<le> length g \<and> length g \<le> 3 \<and> list_all (\<lambda>x. x \<in> set digit_chars) g)
           (split_dot n))"

definition valid_bucket_name :: "string \<Rightarrow> bool" where
  "valid_bucket_name n =
     (3 \<le> length n \<and> length n \<le> 63
      \<and> list_all (\<lambda>x. x \<in> set (lower_chars @ digit_chars @ ''.-'')) n
      \<and> (case n of [] \<Rightarrow> False | c # cs \<Rightarrow> c \<in> set (lower_chars @ digit_chars))
      \<and> (case rev n of [] \<Rightarrow> False | c # cs \<Rightarrow> c \<in> set (lower_chars @ digit_chars))
      \<and> \<not> contains ''.-'' n \<and> \<not> contains ''-.'' n \<and> \<not> contains ''..'' n
      \<and> \<not> ip_like n)"

section \<open>The stack as a construct tree under construction\<close>

text \<open>
  \<open>new X(this, id, props)\<close> adds a child with that id to the stack, or throws; the
  constructor is a sequence of such additions, so the stack is threaded through them as
  state and the first error ends the sequence. A construct is referenced by its id.
\<close>

record stack =
  stackId :: string
  stackName :: string
  children :: "(string \<times> construct) list"
  grants :: "grant list"

text \<open>
  \<open>super(scope, id, props)\<close>, for a stack directly under the app: the id is kept without
  path separators and must not be empty; the name of the stack is the id, or the shortened
  id when that is longer than 128 characters, and must have the form of a stack name.
\<close>

definition Stack_new :: "process_env \<Rightarrow> string \<Rightarrow> error + stack" where
  "Stack_new sys sid =
     (let cid = sanitizeId sid
      in if cid = [] then Inl EmptyId
         else (let name = (if length cid \<le> 128 then cid else makeUniqueResourceName sys cid)
               in if \<not> valid_stack_name name then Inl (StackNameInvalidFormat name)
                  else Inr \<lparr>stackId = cid, stackName = name, children = [], grants = []\<rparr>))"

text \<open>Adding a child: two children of one scope cannot have the same id.\<close>

definition new_construct :: "string \<Rightarrow> construct \<Rightarrow> stack \<Rightarrow> error + stack" where
  "new_construct cid c s =
     (if cid \<in> set (map fst (children s)) then Inl (DuplicateId cid)
      else Inr (s\<lparr>children := children s @ [(cid, c)]\<rparr>))"

fun new_constructs :: "(string \<times> construct) list \<Rightarrow> stack \<Rightarrow> error + stack" where
  "new_constructs [] s = Inr s"
| "new_constructs ((cid, c) # cs) s = on_success (new_construct cid c s) (new_constructs cs)"

text \<open>
  \<open>new s3.Bucket\<close>: the bucket becomes a child; its name is checked unless it holds a
  token; and for \<open>autoDeleteObjects\<close> the stack gets, unless it has it already, the provider
  of the custom resource that empties the bucket.
\<close>

definition auto_delete_provider_id :: string where
  "auto_delete_provider_id = ''Custom::S3AutoDeleteObjectsCustomResourceProvider''"

definition getOrCreateProvider :: "string \<Rightarrow> string \<Rightarrow> stack \<Rightarrow> stack" where
  "getOrCreateProvider cid resource_type s =
     (if cid \<in> set (map fst (children s)) then s
      else s\<lparr>children := children s @ [(cid, CustomResourceProvider resource_type)]\<rparr>)"

definition new_Bucket :: "string \<Rightarrow> bucket_props \<Rightarrow> stack \<Rightarrow> error + stack" where
  "new_Bucket cid props s =
     on_success (new_construct cid (Bucket props) s)
       (\<lambda>s1. if \<not> isUnresolved (bucketName props)
                 \<and> \<not> valid_bucket_name (resolve (\<lambda>p. []) (bucketName props))
              then Inl (InvalidBucketName (resolve (\<lambda>p. []) (bucketName props)))
              else if autoDeleteObjects props
              then Inr (getOrCreateProvider auto_delete_provider_id ''Custom::S3AutoDeleteObjects'' s1)
              else Inr s1)"

text \<open>
  \<open>new lambda.Function\<close>: the function becomes a child; its name is checked; and the asset
  of its code is staged, for which the path must exist and be a directory or a zip file.
\<close>

definition stage_asset :: "process_env \<Rightarrow> code \<Rightarrow> error option" where
  "stage_asset sys c =
     (case c of
        FromInline src \<Rightarrow> None
      | FromAsset p \<Rightarrow>
          (case path_kind sys p of
             None \<Rightarrow> Some (CannotFindAsset p)
           | Some OtherFile \<Rightarrow> Some (AssetNotDirectoryOrZip p)
           | Some k \<Rightarrow> None))"

definition new_Function :: "process_env \<Rightarrow> string \<Rightarrow> function_props \<Rightarrow> stack \<Rightarrow> error + stack" where
  "new_Function sys cid props s =
     on_success (new_construct cid (Function props) s)
       (\<lambda>s1. if length (functionName props) > 64 then Inl (FunctionNameTooLong (functionName props))
              else if \<not> valid_function_name_chars (functionName props)
              then Inl (InvalidFunctionName (functionName props))
              else (case stage_asset sys (fn_code props) of
                      Some err \<Rightarrow> Inl err
                    | None \<Rightarrow> Inr s1))"

text \<open>\<open>bucket.grantWrite(fn)\<close> records a write grant on the bucket for the function.\<close>

definition grantWrite :: "string \<Rightarrow> string \<Rightarrow> stack \<Rightarrow> stack" where
  "grantWrite bucket_id fn_id s = s\<lparr>grants := grants s @ [GrantWrite bucket_id fn_id]\<rparr>"

text \<open>\<open>rule.addTarget(t)\<close> appends a target to the rule with the given id.\<close>

fun add_target_to :: "target \<Rightarrow> construct \<Rightarrow> construct" where
  "add_target_to t (Rule r) = Rule (r\<lparr>rule_targets := rule_targets r @ [t]\<rparr>)"
| "add_target_to t c = c"

definition addTarget :: "string \<Rightarrow> target \<Rightarrow> stack \<Rightarrow> stack" where
  "addTarget rule_id t s =
     s\<lparr>children := map (\<lambda>(cid, c). if cid = rule_id then (cid, add_target_to t c) else (cid, c))
                        (children s)\<rparr>"

section \<open>The stack constructor\<close>

definition reviewsBucket_props :: "string \<Rightarrow> stack_props \<Rightarrow> bucket_props" where
  "reviewsBucket_props prSuffix props =
     \<lparr>bucketName = [Lit (''customer-reviews-fragments'' @ prSuffix @ ''-''), this_account props],
      publicReadAccess = True,
      blockPublicAccess =
        \<lparr>blockPublicAcls = False, blockPublicPolicy = False,
         ignorePublicAcls = False, restrictPublicBuckets = False\<rparr>,
      cors = [\<lparr>allowedMethods = [GET], allowedOrigins = [''*''], allowedHeaders = [''*'']\<rparr>],
      removalPolicy = DESTROY,
      autoDeleteObjects = True\<rparr>"

definition mockApiLambda_props :: "string \<Rightarrow> process_env \<Rightarrow> function_props" where
  "mockApiLambda_props prSuffix sys =
     \<lparr>fn_runtime = NODEJS_22_X,
      fn_handler = ''handler.handler'',
      functionName = ''mock-api-lambda'' @ prSuffix,
      fn_code = FromAsset (path_join [cwd sys, ''customer-reviews-app/dist/mock-api'']),
      fn_environment = [],
      fn_timeout = Duration 30 Seconds,
      fn_memorySize = 512,
      fn_description = ''Mock API that returns fake product review data''\<rparr>"

definition mockApi_props :: "string \<Rightarrow> rest_api_props" where
  "mockApi_props prSuffix =
     \<lparr>api_handler = ''MockApiLambda'',
      restApiName = ''CustomerReviewsMockAPI'' @ prSuffix,
      api_description = ''Mock API Gateway for customer reviews data'',
      api_proxy = True\<rparr>"

definition reviewsLambda_props :: "string \<Rightarrow> process_env \<Rightarrow> function_props" where
  "reviewsLambda_props prSuffix sys =
     \<lparr>fn_runtime = NODEJS_22_X,
      fn_handler = ''index.handler'',
      functionName = ''customer-reviews-lambda'' @ prSuffix,
      fn_code = FromAsset (path_join [cwd sys, ''customer-reviews-app/dist'']),
      fn_environment =
        [(''API_BASE_URL'', [Attr ''MockApiGateway'' ''url'']),
         (''PRODUCT_IDS'', [Lit ''product-a,product-b'']),
         (''OUTPUT_BUCKET'', [Attr ''ReviewsFragmentsBucket'' ''bucketName''])],
      fn_timeout = Duration 5 Minutes,
      fn_memorySize = 512,
      fn_description = ''Fetches reviews and generates HTML fragments in S3''\<rparr>"

definition hourlyRule_props :: rule_props where
  "hourlyRule_props =
     \<lparr>rule_schedule = Rate (Duration 5 Minutes),
      rule_description = ''Triggers reviews Lambda every hour to update fragments'',
      rule_targets = []\<rparr>"

definition outputs :: "stack_props \<Rightarrow> (string \<times> construct) list" where
  "outputs props =
     [(''ReviewsBucketName'',
         CfnOutput \<lparr>out_value = [Attr ''ReviewsFragmentsBucket'' ''bucketName''],
                    out_description = ''S3 bucket storing HTML review fragments''\<rparr>),
      (''ReviewsBucketURL'',
         CfnOutput \<lparr>out_value = [Attr ''ReviewsFragmentsBucket'' ''bucketWebsiteUrl''],
                    out_description = ''Public URL for S3 bucket''\<rparr>),
      (''MockApiEndpoint'',
         CfnOutput \<lparr>out_value = [Attr ''MockApiGateway'' ''url''],
                    out_description = ''Mock API Gateway endpoint URL''\<rparr>),
      (''ReviewsLambdaArn'',
         CfnOutput \<lparr>out_value = [Attr ''ReviewsLambda'' ''functionArn''],
                    out_description = ''ARN of the reviews processing Lambda''\<rparr>),
      (''MainPageURL'',
         CfnOutput \<lparr>out_value = [Lit ''https://'', Attr ''ReviewsFragmentsBucket'' ''bucketName'',
                                  Lit ''.s3.'', this_region props, Lit ''.amazonaws.com/index.html''],
                    out_description = ''Main HTML page with ESI includes (for Fastly CDN)''\<rparr>)]"

definition CustomerReviewsIacStack ::
    "context \<Rightarrow> process_env \<Rightarrow> string \<Rightarrow> stack_props \<Rightarrow> error + stack" where
  "CustomerReviewsIacStack ctx sys sid props =
     on_success (Stack_new sys sid) (\<lambda>s0.
     let prNumber = prNumber_of ctx;
         prSuffix = prSuffix_of prNumber
     in
     on_success (new_Bucket ''ReviewsFragmentsBucket'' (reviewsBucket_props prSuffix props) s0) (\<lambda>s1.
     on_success (new_Function sys ''MockApiLambda'' (mockApiLambda_props prSuffix sys) s1) (\<lambda>s2.
     on_success (new_construct ''MockApiGateway'' (LambdaRestApi (mockApi_props prSuffix)) s2) (\<lambda>s3.
     on_success (new_Function sys ''ReviewsLambda'' (reviewsLambda_props prSuffix sys) s3) (\<lambda>s4.
     let s5 = grantWrite ''ReviewsFragmentsBucket'' ''ReviewsLambda'' s4
     in
     on_success (new_construct ''HourlyReviewsUpdate'' (Rule hourlyRule_props) s5) (\<lambda>s6.
     let s7 = addTarget ''HourlyReviewsUpdate'' (LambdaFunction ''ReviewsLambda'') s6
     in new_constructs (outputs props) s7))))))"

section \<open>The CDK app entry point\<close>

text \<open>Lines 250 and 251: the id the entry point gives the stack.\<close>

definition stackName_of :: "context \<Rightarrow> string" where
  "stackName_of ctx =
     (let prNumber = js_or (tryGetContext ctx ''prNumber'') (JString ''default'')
      in if prNumber \<noteq> JString ''default'' then ''CustomerReviewsIacStack-'' @ template_text prNumber
         else ''CustomerReviewsIacStack'')"

text \<open>Line 253: the stack is made without \<open>env\<close>.\<close>

definition app :: "context \<Rightarrow> process_env \<Rightarrow> error + stack" where
  "app ctx sys =
     CustomerReviewsIacStack ctx sys (stackName_of ctx) \<lparr>env_account = None, env_region = None\<rparr>"

section \<open>Reading a constructed stack\<close>

definition lookup_construct :: "stack \<Rightarrow> string \<Rightarrow> construct option" where
  "lookup_construct s cid = map_of (children s) cid"

fun is_bucket :: "construct \<Rightarrow> bool" where
  "is_bucket (Bucket _) = True" | "is_bucket _ = False"

fun is_function :: "construct \<Rightarrow> bool" where
  "is_function (Function _) = True" | "is_function _ = False"

fun is_rest_api :: "construct \<Rightarrow> bool" where
  "is_rest_api (LambdaRestApi _) = True" | "is_rest_api _ = False"

fun is_rule :: "construct \<Rightarrow> bool" where
  "is_rule (Rule _) = True" | "is_rule _ = False"

definition ids_where :: "(construct \<Rightarrow> bool) \<Rightarrow> stack \<Rightarrow> string list" where
  "ids_where P s = map fst (filter (\<lambda>(cid, c). P c) (children s))"

definition bucket_of :: "stack \<Rightarrow> string \<Rightarrow> bucket_props option" where
  "bucket_of s cid = (case lookup_construct s cid of Some (Bucket b) \<Rightarrow> Some b | _ \<Rightarrow> None)"

definition function_of :: "stack \<Rightarrow> string \<Rightarrow> function_props option" where
  "function_of s cid = (case lookup_construct s cid of Some (Function f) \<Rightarrow> Some f | _ \<Rightarrow> None)"

definition rest_api_of :: "stack \<Rightarrow> string \<Rightarrow> rest_api_props option" where
  "rest_api_of s cid =
     (case lookup_construct s cid of Some (LambdaRestApi a) \<Rightarrow> Some a | _ \<Rightarrow> None)"

definition rule_of :: "stack \<Rightarrow> string \<Rightarrow> rule_props option" where
  "rule_of s cid = (case lookup_construct s cid of Some (Rule r) \<Rightarrow> Some r | _ \<Rightarrow> None)"

fun rules_in :: "(string \<times> construct) list \<Rightarrow> rule_props list" where
  "rules_in [] = []"
| "rules_in ((cid, Rule r) # cs) = r # rules_in cs"
| "rules_in (c # cs) = rules_in cs"

fun functions_in :: "(string \<times> construct) list \<Rightarrow> function_props list" where
  "functions_in [] = []"
| "functions_in ((cid, Function f) # cs) = f # functions_in cs"
| "functions_in (c # cs) = functions_in cs"

text \<open>
  The Lambda function resources of a stack, by path: the resource of each function
  construct and the handler of each custom resource provider.
\<close>

fun lambda_function_resources :: "(string \<times> construct) list \<Rightarrow> string list" where
  "lambda_function_resources [] = []"
| "lambda_function_resources ((cid, Function f) # cs) =
     (cid @ ''/Resource'') # lambda_function_resources cs"
| "lambda_function_resources ((cid, CustomResourceProvider t) # cs) =
     (cid @ ''/Handler'') # lambda_function_resources cs"
| "lambda_function_resources (c # cs) = lambda_function_resources cs"

text \<open>
  What construction asks of its surroundings, besides well-formed names: both asset
  directories are there.
\<close>

definition assets_present :: "process_env \<Rightarrow> bool" where
  "assets_present sys =
     (path_kind sys (path_join [cwd sys, ''customer-reviews-app/dist/mock-api''])
        \<in> {Some Directory, Some ZipFile}
      \<and> path_kind sys (path_join [cwd sys, ''customer-reviews-app/dist''])
        \<in> {Some Directory, Some ZipFile})"

text \<open>
  What construction asks of the names it is given: the id of the stack is not empty and the
  name of the stack has the form of a stack name; the name of the bucket, when the account
  is given, has the form of a bucket name; and the names of the two functions have the form
  and the length of a function name.
\<close>

definition names_accepted :: "context \<Rightarrow> process_env \<Rightarrow> string \<Rightarrow> stack_props \<Rightarrow> bool" where
  "names_accepted ctx sys sid props =
     (sanitizeId sid \<noteq> []
      \<and> valid_stack_name (if length (sanitizeId sid) \<le> 128 then sanitizeId sid
                           else makeUniqueResourceName sys (sanitizeId sid))
      \<and> (case env_account props of
            None \<Rightarrow> True
          | Some a \<Rightarrow> valid_bucket_name (''customer-reviews-fragments'' @ prSuffix_of (prNumber_of ctx)
                                          @ ''-'' @ a))
      \<and> length (''customer-reviews-lambda'' @ prSuffix_of (prNumber_of ctx)) \<le> 64
      \<and> valid_function_name_chars (''mock-api-lambda'' @ prSuffix_of (prNumber_of ctx))
      \<and> valid_function_name_chars (''customer-reviews-lambda'' @ prSuffix_of (prNumber_of ctx)))"

text \<open>
  An example of the surroundings: a Jenkins workspace in which the app has been built, and
  a stack made without \<open>env\<close>.
\<close>

definition example_process :: process_env where
  "example_process =
     \<lparr>cwd = ''/var/jenkins/workspace/iac'',
      path_kind = (\<lambda>p. if p = ''/var/jenkins/workspace/iac/customer-reviews-app/dist''
                            \<or> p = ''/var/jenkins/workspace/iac/customer-reviews-app/dist/mock-api''
                         then Some Directory else None),
      makeUniqueResourceName = take 128\<rparr>"

definition agnostic :: stack_props where
  "agnostic = \<lparr>env_account = None, env_region = None\<rparr>"

section \<open>The Jenkins pipeline\<close>

subsection \<open>The world outside the pipeline\<close>

text \<open>
  Everything the pipeline does is done by something outside it. An action is one such
  request: an external program run by a shell step with its expanded argument text, the
  AWS CLI run as \<open>${AWS_CLI}\<close> from the path that was located for it, a shell
  pipeline of programs, or a Jenkins checkout or credentials binding. The
  world answers each action with an exit status (0 is success) and the text written to
  standard output; the answer may depend on everything done before, which is the history.
  File tests (\<open>[ -f path ]\<close>) are answered in the same way. Redirections of the script
  (\<open>2>/dev/null\<close>, \<open>> synth-output.yaml\<close>) are part of the action they decorate, and
  unquoted expansions are taken as one word.
\<close>

datatype action =
    Exec string string
  | Aws string string
  | Piped "(string \<times> string) list"
  | ScmCheckout
  | GitCheckout string string string
  | CredentialsBinding string

type_synonym history = "action list"

record world =
  outcome :: "history \<Rightarrow> action \<Rightarrow> nat \<times> string"
  is_file :: "history \<Rightarrow> string \<Rightarrow> bool"

text \<open>The variables the stages read.\<close>

record penv =
  PR_NUMBER :: string
  AWS_CREDENTIALS_ID :: string
  AWS_REGION :: string
  BOOTSTRAP_CDK :: "string option"

text \<open>Groovy's \<open>a ?: b\<close>: \<open>null\<close> and the empty string are false.\<close>

definition elvis :: "string option \<Rightarrow> string \<Rightarrow> string" where
  "elvis a b = (case a of None \<Rightarrow> b | Some s \<Rightarrow> if s = [] then b else s)"

text \<open>
  Lines 35 to 40, from the build parameter \<open>params.PR_NUMBER\<close> and the variables
  \<open>env.PR_NUMBER\<close> and \<open>env.BOOTSTRAP_CDK\<close> of the agent.
\<close>

definition environment :: "string option \<Rightarrow> string option \<Rightarrow> string option \<Rightarrow> penv" where
  "environment params_PR_NUMBER env_PR_NUMBER env_BOOTSTRAP_CDK =
     \<lparr>PR_NUMBER = elvis params_PR_NUMBER (elvis env_PR_NUMBER ''default''),
      AWS_CREDENTIALS_ID = ''aws-credentials'',
      AWS_REGION = ''us-east-1'',
      BOOTSTRAP_CDK = env_BOOTSTRAP_CDK\<rparr>"

subsection \<open>Shell steps\<close>

text \<open>
  Jenkins runs the text of an \<open>sh\<close> step with \<open>sh -xe\<close>: a command that fails outside a
  condition or the left of \<open>||\<close> ends the script with its status. A script takes the
  world and the history so far and returns its exit status and the extended history;
  \<open>perform\<close> asks the world for one action and records it.
\<close>

type_synonym script = "world \<Rightarrow> history \<Rightarrow> nat \<times> history"

definition perform :: "action \<Rightarrow> script" where
  "perform a w h = (fst (outcome w h a), h @ [a])"

definition sh_echo :: script where
  "sh_echo w h = (0, h)"

definition sh_export :: script where
  "sh_export w h = (0, h)"

definition sh_exit :: "nat \<Rightarrow> script" where
  "sh_exit n w h = (n, h)"

definition and_then :: "script \<Rightarrow> script \<Rightarrow> script" where
  "and_then a b w h = (case a w h of (rc, h') \<Rightarrow> if rc = 0 then b w h' else (rc, h'))"

definition or_else :: "script \<Rightarrow> script \<Rightarrow> script" where
  "or_else a b w h = (case a w h of (rc, h') \<Rightarrow> if rc = 0 then (0, h') else b w h')"

text \<open>Command substitution \<open>$(...)\<close> drops the trailing newlines of the output.\<close>

definition chomp :: "string \<Rightarrow> string" where
  "chomp s = rev (dropWhile (\<lambda>c. c = CHR 0x0A) (rev s))"

definition CONFIG_FILE :: "penv \<Rightarrow> string" where
  "CONFIG_FILE e = ''config/pr-'' @ PR_NUMBER e @ ''/config.json''"

definition setup_node_sh :: script where
  "setup_node_sh =
     and_then (perform (Exec ''node'' ''--version''))
       (and_then (perform (Exec ''npm'' ''--version'')) sh_echo)"

definition install_sh :: script where
  "install_sh =
     and_then (perform (Exec ''npm'' ''install''))
       (perform (Exec ''npm'' ''list aws-cdk-lib constructs typescript''))"

definition read_config_sh :: "penv \<Rightarrow> script" where
  "read_config_sh e w h =
     (if is_file w h (CONFIG_FILE e)
      then and_then sh_echo (and_then (perform (Exec ''cat'' (CONFIG_FILE e))) sh_export) w h
      else and_then sh_echo sh_export w h)"

text \<open>
  Lines 126 to 129: the path of the AWS CLI, from \<open>which\<close>, else the Homebrew path, else
  the first hit of \<open>find\<close>. The result is the status of the last assignment and the path.
\<close>

definition which_aws :: "world \<Rightarrow> history \<Rightarrow> string \<times> history" where
  "which_aws w h =
     (let (rc, out) = outcome w h (Exec ''which'' ''aws'')
      in (chomp (if rc = 0 then out else out @ ''/opt/homebrew/bin/aws'' @ [CHR 0x0A]),
          h @ [Exec ''which'' ''aws'']))"

definition find_aws :: action where
  "find_aws = Piped [(''find'', ''/opt/homebrew /usr/local /usr -name aws''), (''head'', ''-1'')]"

definition locate_aws :: "world \<Rightarrow> history \<Rightarrow> (nat \<times> string) \<times> history" where
  "locate_aws w h =
     (let (AWS_CLI, h1) = which_aws w h
      in if \<not> is_file w h1 AWS_CLI
         then (let (rc, out) = outcome w h1 find_aws in ((rc, chomp out), h1 @ [find_aws]))
         else ((0, AWS_CLI), h1))"

text \<open>Lines 136 to 143, for a located AWS CLI.\<close>

definition bootstrap_if_needed :: "penv \<Rightarrow> string \<Rightarrow> script" where
  "bootstrap_if_needed e AWS_CLI w h =
     (let describe = Aws AWS_CLI (''cloudformation describe-stacks --stack-name CDKToolkit --region ''
                                    @ AWS_REGION e);
          h1 = h @ [describe]
      in if fst (outcome w h describe) \<noteq> 0
         then (let identity = Aws AWS_CLI ''sts get-caller-identity --query Account --output text'';
                   h2 = h1 @ [identity];
                   bootstrap = Exec ''npx'' (''cdk bootstrap aws://'' @ chomp (snd (outcome w h1 identity))
                                               @ ''/'' @ AWS_REGION e)
               in and_then sh_echo (perform bootstrap) w h2)
         else sh_echo w h1)"

definition bootstrap_sh :: "penv \<Rightarrow> script" where
  "bootstrap_sh e w h =
     (case locate_aws w h of
        ((rc, AWS_CLI), h1) \<Rightarrow>
          if rc \<noteq> 0 then (rc, h1)
          else if AWS_CLI = [] \<or> \<not> is_file w h1 AWS_CLI then and_then sh_echo (sh_exit 1) w h1
          else bootstrap_if_needed e AWS_CLI w h1)"

text \<open>
  Lines 158 to 162. A failure to write \<open>synth-output.yaml\<close> is a failure of the command.
\<close>

definition cdk_synth :: "penv \<Rightarrow> action" where
  "cdk_synth e = Exec ''npx'' (''cdk synth --context prNumber='' @ PR_NUMBER e)"

definition synth_sh :: "penv \<Rightarrow> script" where
  "synth_sh e =
     and_then (or_else (perform (cdk_synth e)) (and_then sh_echo (sh_exit 1))) sh_echo"

text \<open>
  Lines 178 to 183, repeated as lines 207 to 212: the stack name, read from the
  configuration file of the pull request when there is one, else made from the number.
\<close>

definition grep_stackName :: "penv \<Rightarrow> action" where
  "grep_stackName e =
     Piped [(''cat'', CONFIG_FILE e),
            (''grep'', ''-o '' @ [CHR 0x27, CHR 0x22] @ ''stackName'' @ [CHR 0x22] @ '': ''
                        @ [CHR 0x22] @ ''[^'' @ [CHR 0x22] @ '']*'' @ [CHR 0x27]),
            (''cut'', ''-d'' @ [CHR 0x27, CHR 0x22, CHR 0x27] @ '' -f4'')]"

definition STACK_NAME :: "penv \<Rightarrow> world \<Rightarrow> history \<Rightarrow> (nat \<times> string) \<times> history" where
  "STACK_NAME e w h =
     (if is_file w h (CONFIG_FILE e)
      then (let (rc, out) = outcome w h (grep_stackName e)
            in ((rc, chomp out), h @ [grep_stackName e]))
      else ((0, ''CustomerReviewsIacStack-'' @ PR_NUMBER e), h))"

definition cdk_deploy :: "penv \<Rightarrow> action" where
  "cdk_deploy e =
     Exec ''npx'' (''cdk deploy --all --require-approval never --context prNumber='' @ PR_NUMBER e)"

definition deploy_sh :: "penv \<Rightarrow> script" where
  "deploy_sh e w h =
     (case STACK_NAME e w h of
        ((rc, name), h1) \<Rightarrow>
          if rc \<noteq> 0 then (rc, h1)
          else and_then sh_echo
                 (and_then (or_else (perform (cdk_deploy e)) (and_then sh_echo (sh_exit 1)))
                    sh_echo) w h1)"

definition describe_outputs :: "penv \<Rightarrow> string \<Rightarrow> string \<Rightarrow> action" where
  "describe_outputs e AWS_CLI name =
     Aws AWS_CLI (''cloudformation describe-stacks --stack-name '' @ name
                   @ '' --query '' @ [CHR 0x27] @ ''Stacks[0].Outputs'' @ [CHR 0x27]
                   @ '' --output table --region '' @ AWS_REGION e)"

definition display_sh :: "penv \<Rightarrow> script" where
  "display_sh e w h =
     (case STACK_NAME e w h of
        ((rc, name), h1) \<Rightarrow>
          if rc \<noteq> 0 then (rc, h1)
          else (let (AWS_CLI, h2) = which_aws w h1
                in if is_file w h2 AWS_CLI
                   then and_then sh_echo
                          (or_else (perform (describe_outputs e AWS_CLI name)) sh_echo) w h2
                   else (0, h2)))"

subsection \<open>Steps and stages\<close>

datatype step =
    Echo string
  | Checkout_scm
  | Dir_checkout string string string
  | Sh script
  | WithCredentials_sh string script

fun run_step :: "world \<Rightarrow> step \<Rightarrow> history \<Rightarrow> nat \<times> history" where
  "run_step w (Echo msg) h = (0, h)"
| "run_step w Checkout_scm h = perform ScmCheckout w h"
| "run_step w (Dir_checkout d url branch) h = perform (GitCheckout d url branch) w h"
| "run_step w (Sh sc) h = sc w h"
| "run_step w (WithCredentials_sh cid sc) h = and_then (perform (CredentialsBinding cid)) sc w h"

text \<open>The steps of a stage run in order; the first one that fails fails the stage.\<close>

fun run_steps :: "world \<Rightarrow> step list \<Rightarrow> history \<Rightarrow> nat \<times> history" where
  "run_steps w [] h = (0, h)"
| "run_steps w (s # ss) h =
     (case run_step w s h of (rc, h') \<Rightarrow> if rc = 0 then run_steps w ss h' else (rc, h'))"

record stage =
  stage_name :: string
  stage_when :: "penv \<Rightarrow> bool"
  stage_steps :: "penv \<Rightarrow> step list"

definition banner :: "string list \<Rightarrow> step list" where
  "banner msgs =
     [Echo ''============================================''] @ map Echo msgs
     @ [Echo ''============================================'']"

definition checkout_infrastructure :: stage where
  "checkout_infrastructure =
     \<lparr>stage_name = ''Checkout Infrastructure Code'', stage_when = (\<lambda>e. True),
      stage_steps = (\<lambda>e. banner [''Checking out Infrastructure repository'',
                                     ''PR Number: '' @ PR_NUMBER e]
                            @ [Checkout_scm])\<rparr>"

definition checkout_app :: stage where
  "checkout_app =
     \<lparr>stage_name = ''Checkout App Code'', stage_when = (\<lambda>e. True),
      stage_steps = (\<lambda>e. banner [''Checking out Customer Reviews App repository'']
                            @ [Dir_checkout ''customer-reviews-app''
                                 ''https://github.com/DeepakDevProjects/customer-reviews-app.git''
                                 ''*/main''])\<rparr>"

definition setup_node :: stage where
  "setup_node =
     \<lparr>stage_name = ''Setup Node.js'', stage_when = (\<lambda>e. True),
      stage_steps = (\<lambda>e. [Sh setup_node_sh])\<rparr>"

definition install_dependencies :: stage where
  "install_dependencies =
     \<lparr>stage_name = ''Install Dependencies'', stage_when = (\<lambda>e. True),
      stage_steps = (\<lambda>e. [Sh install_sh])\<rparr>"

definition read_pr_configuration :: stage where
  "read_pr_configuration =
     \<lparr>stage_name = ''Read PR Configuration'', stage_when = (\<lambda>e. True),
      stage_steps = (\<lambda>e. banner [''Reading PR '' @ PR_NUMBER e @ '' configuration'']
                            @ [Sh (read_config_sh e)])\<rparr>"

definition bootstrap_cdk :: stage where
  "bootstrap_cdk =
     \<lparr>stage_name = ''Bootstrap CDK'',
      stage_when = (\<lambda>e. PR_NUMBER e = ''default'' \<or> BOOTSTRAP_CDK e = Some ''true''),
      stage_steps = (\<lambda>e. [WithCredentials_sh (AWS_CREDENTIALS_ID e) (bootstrap_sh e)])\<rparr>"

definition synthesize_cdk :: stage where
  "synthesize_cdk =
     \<lparr>stage_name = ''Synthesize CDK'', stage_when = (\<lambda>e. True),
      stage_steps = (\<lambda>e. banner [''Synthesizing CloudFormation template'',
                                     ''PR Number: '' @ PR_NUMBER e]
                            @ [Sh (synth_sh e)])\<rparr>"

definition deploy_cdk_stack :: stage where
  "deploy_cdk_stack =
     \<lparr>stage_name = ''Deploy CDK Stack'', stage_when = (\<lambda>e. True),
      stage_steps = (\<lambda>e. banner [''Deploying CDK stack'', ''PR Number: '' @ PR_NUMBER e]
                            @ [WithCredentials_sh (AWS_CREDENTIALS_ID e) (deploy_sh e)])\<rparr>"

definition display_stack_outputs :: stage where
  "display_stack_outputs =
     \<lparr>stage_name = ''Display Stack Outputs'', stage_when = (\<lambda>e. True),
      stage_steps = (\<lambda>e. banner [''Stack deployment completed'', ''PR Number: '' @ PR_NUMBER e]
                            @ [WithCredentials_sh (AWS_CREDENTIALS_ID e) (display_sh e)])\<rparr>"

definition stages :: "stage list" where
  "stages =
     [checkout_infrastructure, checkout_app, setup_node, install_dependencies,
      read_pr_configuration, bootstrap_cdk, synthesize_cdk, deploy_cdk_stack,
      display_stack_outputs]"

text \<open>
  A run of the pipeline takes the stages in the order they are written. A stage is
  skipped when an earlier stage has failed or its \<open>when\<close> is false; otherwise it is
  entered and its steps run. The state of a run is whether every stage so far succeeded,
  the names of the stages entered, in order, and the history. The \<open>post\<close> block only
  prints a message that depends on the result, and the \<open>options\<close> and \<open>tools\<close>
  blocks configure the agent before the first stage.
\<close>

record run_state =
  succeeded :: bool
  entered :: "string list"
  performed :: history

definition run_stage :: "world \<Rightarrow> penv \<Rightarrow> stage \<Rightarrow> run_state \<Rightarrow> run_state" where
  "run_stage w e st r =
     (if \<not> succeeded r \<or> \<not> stage_when st e then r
      else (case run_steps w (stage_steps st e) (performed r) of
              (rc, h') \<Rightarrow>
                \<lparr>succeeded = (rc = 0), entered = entered r @ [stage_name st], performed = h'\<rparr>))"

fun run_stages :: "world \<Rightarrow> penv \<Rightarrow> stage list \<Rightarrow> run_state \<Rightarrow> run_state" where
  "run_stages w e [] r = r"
| "run_stages w e (st # sts) r = run_stages w e sts (run_stage w e st r)"

definition start :: run_state where
  "start = \<lparr>succeeded = True, entered = [], performed = []\<rparr>"

definition pipeline :: "world \<Rightarrow> penv \<Rightarrow> run_state" where
  "pipeline w e = run_stages w e stages start"

text \<open>The programs an action runs.\<close>

fun programs :: "action \<Rightarrow> string list" where
  "programs (Exec p args) = [p]"
| "programs (Aws path args) = [''aws'']"
| "programs (Piped cs) = map fst cs"
| "programs a = []"

fun is_shell_step :: "step \<Rightarrow> bool" where
  "is_shell_step (Sh sc) = True"
| "is_shell_step (WithCredentials_sh cid sc) = True"
| "is_shell_step s = False"

text \<open>The names of the stages of a list whose \<open>when\<close> holds, in order.\<close>

definition enabled_names :: "penv \<Rightarrow> stage list \<Rightarrow> string list" where
  "enabled_names e sts = map stage_name (filter (\<lambda>st. stage_when st e) sts)"

text \<open>The external programs named in the shell steps.\<close>

definition external_programs :: "string list" where
  "external_programs =
     [''node'', ''npm'', ''npx'', ''aws'', ''which'', ''find'', ''head'', ''cat'', ''grep'', ''cut'']"

definition known_action :: "action \<Rightarrow> bool" where
  "known_action a = list_all (\<lambda>p. p \<in> set external_programs) (programs a)"

text \<open>
  A script keeps a property of actions when every action it adds to a history has it.
\<close>

definition keeps :: "(action \<Rightarrow> bool) \<Rightarrow> script \<Rightarrow> bool" where
  "keeps P sc = (\<forall>w h. list_all P h \<longrightarrow> list_all P (snd (sc w h)))"

fun step_keeps :: "step \<Rightarrow> bool" where
  "step_keeps (Sh sc) = keeps known_action sc"
| "step_keeps (WithCredentials_sh c sc) = keeps known_action sc"
| "step_keeps s = True"

text \<open>What \<open>--context prNumber=${PR_NUMBER}\<close> hands to the CDK app.\<close>

definition cli_context :: "string \<Rightarrow> context" where
  "cli_context pr = [''prNumber'' \<mapsto> JString pr]"

text \<open>The state of a run when it comes to the stage Synthesize CDK.\<close>

definition before_synthesis :: "world \<Rightarrow> penv \<Rightarrow> run_state" where
  "before_synthesis w e =
     run_stages w e
       [checkout_infrastructure, checkout_app, setup_node, install_dependencies,
        read_pr_configuration, bootstrap_cdk] start"

text \<open>
  Two example agents, both with the AWS CLI at \<open>/usr/local/bin/aws\<close> and without
  configuration files: on the first everything succeeds; on the second \<open>cdk synth\<close> for
  the default deployment exits with status 2 whenever something has been done before it,
  and succeeds on an empty history.
\<close>

definition example_agent :: world where
  "example_agent =
     \<lparr>outcome = (\<lambda>h a. (0, ''/usr/local/bin/aws'' @ [CHR 0x0A])),
      is_file = (\<lambda>h p. p = ''/usr/local/bin/aws'')\<rparr>"

definition failing_agent :: world where
  "failing_agent =
     \<lparr>outcome = (\<lambda>h a. (if a = Exec ''npx'' ''cdk synth --context prNumber=default'' \<and> h \<noteq> []
                            then 2 else 0,
                           ''/usr/local/bin/aws'' @ [CHR 0x0A])),
      is_file = (\<lambda>h p. p = ''/usr/local/bin/aws'')\<rparr>"

section \<open>Properties of joined paths\<close>

lemma split_slash_nonempty: "split_slash s \<noteq> []"
  by (induction s) (auto split: list.splits)

lemma split_slash_free: "CHR ''/'' \<notin> set s \<Longrightarrow> split_slash s = [s]"
  by (induction s) auto

lemma split_slash_append:
  "CHR ''/'' \<notin> set s \<Longrightarrow> split_slash (s @ CHR ''/'' # t) = s # split_slash t"
  by (induction s) auto

lemma split_join:
  "list_all plain xs \<Longrightarrow> xs \<noteq> [] \<Longrightarrow> split_slash (join_slash xs) = xs"
proof (induction xs rule: join_slash.induct)
  case 1 then show ?case by simp
next
  case (2 s) then show ?case by (simp add: plain_def split_slash_free)
next
  case (3 s t ts)
  then show ?case using split_slash_append [of s "join_slash (t # ts)"] by (simp add: plain_def)
qed

lemma normalizeString_plain:
  "list_all plain xs \<Longrightarrow> normalizeString up res xs = res @ xs"
  by (induction xs arbitrary: res) (auto simp: plain_def)

lemma join_slash_Nil: "list_all plain xs \<Longrightarrow> xs \<noteq> [] \<Longrightarrow> join_slash xs \<noteq> []"
  by (induction xs rule: join_slash.induct) (auto simp: plain_def)

lemma last_join_slash:
  "list_all plain xs \<Longrightarrow> xs \<noteq> [] \<Longrightarrow> last (join_slash xs) \<noteq> CHR ''/''"
proof (induction xs rule: join_slash.induct)
  case 1 then show ?case by simp
next
  case (2 s) then show ?case by (auto simp: plain_def dest: last_in_set)
next
  case (3 s t ts)
  then have "join_slash (t # ts) \<noteq> []" by (simp add: join_slash_Nil)
  with 3 show ?case by simp
qed

lemma join_slash_append:
  "xs \<noteq> [] \<Longrightarrow> ys \<noteq> [] \<Longrightarrow> join_slash (xs @ ys) = join_slash xs @ ''/'' @ join_slash ys"
  by (induction xs rule: join_slash.induct) (auto simp: neq_Nil_conv)

lemma normalize_absolute:
  assumes "list_all plain xs" "xs \<noteq> []"
  shows "normalize_posix (''/'' @ join_slash xs) = ''/'' @ join_slash xs"
proof -
  have s: "split_slash (''/'' @ join_slash xs) = [] # xs"
    using assms by (simp add: split_join)
  have n: "normalizeString False [] ([] # xs) = xs"
    using assms by (simp add: normalizeString_plain)
  show ?thesis
    using assms s n join_slash_Nil [OF assms] last_join_slash [OF assms]
    by (simp add: normalize_posix_def Let_def)
qed

lemma normalize_double_slash:
  assumes "list_all plain xs" "xs \<noteq> []"
  shows "normalize_posix (''//'' @ join_slash xs) = ''/'' @ join_slash xs"
proof -
  have s: "split_slash (''//'' @ join_slash xs) = [] # [] # xs"
    using assms by (simp add: split_join)
  have n: "normalizeString False [] ([] # [] # xs) = xs"
    using assms by (simp add: normalizeString_plain)
  show ?thesis
    using assms s n join_slash_Nil [OF assms] last_join_slash [OF assms]
    by (simp add: normalize_posix_def Let_def)
qed

lemma path_join_cwd:
  assumes "list_all plain ds" "list_all plain rs" "rs \<noteq> []"
  shows "path_join [''/'' @ join_slash ds, join_slash rs] = ''/'' @ join_slash (ds @ rs)"
proof (cases "ds = []")
  case True
  with assms show ?thesis
    using normalize_double_slash [of rs] join_slash_Nil [of rs]
    by (simp add: path_join_def)
next
  case False
  with assms have "normalize_posix (''/'' @ join_slash (ds @ rs)) = ''/'' @ join_slash (ds @ rs)"
    by (intro normalize_absolute) auto
  with False assms show ?thesis
    using join_slash_Nil [of rs] by (simp add: path_join_def join_slash_append)
qed

section \<open>Properties of the stack\<close>

lemma on_success_Inr:
  "on_success r f = Inr y \<longleftrightarrow> (\<exists>x. r = Inr x \<and> f x = Inr y)"
  by (cases r) (simp_all add: on_success_def)

lemma Stack_new_Inr:
  "Stack_new sys sid = Inr s \<longleftrightarrow>
     sanitizeId sid \<noteq> []
     \<and> valid_stack_name (if length (sanitizeId sid) \<le> 128 then sanitizeId sid
                          else makeUniqueResourceName sys (sanitizeId sid))
     \<and> s = \<lparr>stackId = sanitizeId sid,
            stackName = (if length (sanitizeId sid) \<le> 128 then sanitizeId sid
                         else makeUniqueResourceName sys (sanitizeId sid)),
            children = [], grants = []\<rparr>"
  by (auto simp: Stack_new_def Let_def)

lemma new_construct_Inr:
  "new_construct cid c s = Inr s' \<longleftrightarrow>
     cid \<notin> set (map fst (children s)) \<and> s' = s\<lparr>children := children s @ [(cid, c)]\<rparr>"
  by (auto simp: new_construct_def)

lemma new_Bucket_Inr:
  "new_Bucket cid props s = Inr s' \<longleftrightarrow>
     cid \<notin> set (map fst (children s))
     \<and> (isUnresolved (bucketName props) \<or> valid_bucket_name (resolve (\<lambda>p. []) (bucketName props)))
     \<and> s' = (if autoDeleteObjects props
             then getOrCreateProvider auto_delete_provider_id ''Custom::S3AutoDeleteObjects''
                    (s\<lparr>children := children s @ [(cid, Bucket props)]\<rparr>)
             else s\<lparr>children := children s @ [(cid, Bucket props)]\<rparr>)"
  by (auto simp: new_Bucket_def on_success_Inr new_construct_Inr)

lemma stage_asset_None:
  "stage_asset sys (FromAsset p) = None \<longleftrightarrow> path_kind sys p \<in> {Some Directory, Some ZipFile}"
  by (auto simp: stage_asset_def split: option.splits path_kind.splits)

lemma new_Function_Inr:
  "new_Function sys cid props s = Inr s' \<longleftrightarrow>
     cid \<notin> set (map fst (children s))
     \<and> length (functionName props) \<le> 64
     \<and> valid_function_name_chars (functionName props)
     \<and> stage_asset sys (fn_code props) = None
     \<and> s' = s\<lparr>children := children s @ [(cid, Function props)]\<rparr>"
  by (auto simp: new_Function_def on_success_Inr new_construct_Inr split: option.splits)

text \<open>
  When the constructor returns a stack, and only then, the names and the assets pass the
  checks, and the stack is the following: the bucket, the provider the bucket brings, the
  two functions around the REST API, the rule with its target, and the outputs.
\<close>

lemma CustomerReviewsIacStack_Inr:
  "CustomerReviewsIacStack ctx sys sid props = Inr s \<longleftrightarrow>
     names_accepted ctx sys sid props \<and> assets_present sys
     \<and> s = \<lparr>stackId = sanitizeId sid,
            stackName = (if length (sanitizeId sid) \<le> 128 then sanitizeId sid
                         else makeUniqueResourceName sys (sanitizeId sid)),
            children =
              [(''ReviewsFragmentsBucket'', Bucket (reviewsBucket_props (prSuffix_of (prNumber_of ctx)) props)),
               (''Custom::S3AutoDeleteObjectsCustomResourceProvider'',
                  CustomResourceProvider ''Custom::S3AutoDeleteObjects''),
               (''MockApiLambda'', Function (mockApiLambda_props (prSuffix_of (prNumber_of ctx)) sys)),
               (''MockApiGateway'', LambdaRestApi (mockApi_props (prSuffix_of (prNumber_of ctx)))),
               (''ReviewsLambda'', Function (reviewsLambda_props (prSuffix_of (prNumber_of ctx)) sys)),
               (''HourlyReviewsUpdate'',
                  Rule (hourlyRule_props\<lparr>rule_targets := [LambdaFunction ''ReviewsLambda'']\<rparr>))]
              @ outputs props,
            grants = [GrantWrite ''ReviewsFragmentsBucket'' ''ReviewsLambda'']\<rparr>"
proof -
  have outs: "new_constructs (outputs props) t = Inr s \<longleftrightarrow>
      set (map fst (outputs props)) \<inter> set (map fst (children t)) = {}
      \<and> s = t\<lparr>children := children t @ outputs props\<rparr>" for t
    by (auto simp: outputs_def on_success_Inr new_construct_Inr)
  have bucket: "isUnresolved (bucketName (reviewsBucket_props sfx props))
          \<or> valid_bucket_name (resolve (\<lambda>p. []) (bucketName (reviewsBucket_props sfx props)))
        \<longleftrightarrow> (case env_account props of None \<Rightarrow> True
             | Some a \<Rightarrow> valid_bucket_name (''customer-reviews-fragments'' @ sfx @ ''-'' @ a))" for sfx
    by (simp add: reviewsBucket_props_def isUnresolved_def this_account_def resolve_def
        split: option.splits)
  show ?thesis
    unfolding CustomerReviewsIacStack_def Let_def on_success_Inr Stack_new_Inr new_Bucket_Inr
      new_Function_Inr new_construct_Inr outs bucket
    apply (simp add: getOrCreateProvider_def auto_delete_provider_id_def grantWrite_def addTarget_def
        outputs_def names_accepted_def assets_present_def stage_asset_None
        mockApiLambda_props_def reviewsLambda_props_def reviewsBucket_props_def hourlyRule_props_def
        cong: conj_cong)
    apply auto
    done
qed

lemma constructed:
  assumes "CustomerReviewsIacStack ctx sys sid props = Inr s"
  shows "children s =
           [(''ReviewsFragmentsBucket'', Bucket (reviewsBucket_props (prSuffix_of (prNumber_of ctx)) props)),
            (''Custom::S3AutoDeleteObjectsCustomResourceProvider'',
               CustomResourceProvider ''Custom::S3AutoDeleteObjects''),
            (''MockApiLambda'', Function (mockApiLambda_props (prSuffix_of (prNumber_of ctx)) sys)),
            (''MockApiGateway'', LambdaRestApi (mockApi_props (prSuffix_of (prNumber_of ctx)))),
            (''ReviewsLambda'', Function (reviewsLambda_props (prSuffix_of (prNumber_of ctx)) sys)),
            (''HourlyReviewsUpdate'',
               Rule (hourlyRule_props\<lparr>rule_targets := [LambdaFunction ''ReviewsLambda'']\<rparr>))]
           @ outputs props"
    and "stackId s = sanitizeId sid"
    and "names_accepted ctx sys sid props"
    and "assets_present sys"
  using assms by (simp_all add: CustomerReviewsIacStack_Inr)

lemma constructed_lookup:
  assumes "CustomerReviewsIacStack ctx sys sid props = Inr s"
  shows "lookup_construct s ''ReviewsFragmentsBucket''
           = Some (Bucket (reviewsBucket_props (prSuffix_of (prNumber_of ctx)) props))"
    and "lookup_construct s ''MockApiLambda''
           = Some (Function (mockApiLambda_props (prSuffix_of (prNumber_of ctx)) sys))"
    and "lookup_construct s ''MockApiGateway''
           = Some (LambdaRestApi (mockApi_props (prSuffix_of (prNumber_of ctx))))"
    and "lookup_construct s ''ReviewsLambda''
           = Some (Function (reviewsLambda_props (prSuffix_of (prNumber_of ctx)) sys))"
    and "lookup_construct s ''HourlyReviewsUpdate''
           = Some (Rule (hourlyRule_props\<lparr>rule_targets := [LambdaFunction ''ReviewsLambda'']\<rparr>))"
  by (simp_all add: lookup_construct_def constructed(1) [OF assms])

text \<open>
  The ids the children of a constructed stack have are distinct.
\<close>

lemma ids_distinct:
  "CustomerReviewsIacStack ctx sys sid props = Inr s \<Longrightarrow> distinct (map fst (children s))"
  by (simp add: constructed(1) outputs_def)

lemma example_paths:
  "path_join [cwd example_process, ''customer-reviews-app/dist'']
     = ''/var/jenkins/workspace/iac/customer-reviews-app/dist''"
  "path_join [cwd example_process, ''customer-reviews-app/dist/mock-api'']
     = ''/var/jenkins/workspace/iac/customer-reviews-app/dist/mock-api''"
proof -
  have p: "list_all plain [''var'', ''jenkins'', ''workspace'', ''iac'']"
    and d: "list_all plain [''customer-reviews-app'', ''dist'']"
    and m: "list_all plain [''customer-reviews-app'', ''dist'', ''mock-api'']"
    by (simp_all add: plain_def)
  have c: "cwd example_process = ''/'' @ join_slash [''var'', ''jenkins'', ''workspace'', ''iac'']"
    by (simp add: example_process_def)
  show "path_join [cwd example_process, ''customer-reviews-app/dist'']
          = ''/var/jenkins/workspace/iac/customer-reviews-app/dist''"
    using path_join_cwd [OF p d] c by simp
  show "path_join [cwd example_process, ''customer-reviews-app/dist/mock-api'']
          = ''/var/jenkins/workspace/iac/customer-reviews-app/dist/mock-api''"
    using path_join_cwd [OF p m] c by simp
qed

lemma example_assets: "assets_present example_process"
  by (simp add: assets_present_def example_paths) (simp add: example_process_def)

lemmas char_defs = lower_chars_def upper_chars_def digit_chars_def

lemma example_constructed:
  "\<not> isl (CustomerReviewsIacStack Map.empty example_process ''CustomerReviewsIacStack'' agnostic)"
proof -
  have "names_accepted Map.empty example_process ''CustomerReviewsIacStack'' agnostic"
    by (simp add: names_accepted_def sanitizeId_def prSuffix_of_def prNumber_of_def js_or_def
        tryGetContext_def agnostic_def valid_function_name_chars_def char_defs)
  with example_assets
  have "\<exists>s. CustomerReviewsIacStack Map.empty example_process ''CustomerReviewsIacStack'' agnostic = Inr s"
    by (simp add: CustomerReviewsIacStack_Inr)
  then show ?thesis by auto
qed

lemma projr_Inr: "\<not> isl r \<Longrightarrow> r = Inr (projr r)"
  by (cases r) simp_all

lemma sanitizeId_plain: "CHR ''/'' \<notin> set x \<Longrightarrow> sanitizeId x = x"
  by (induction x) (auto simp: sanitizeId_def)

lemma slash_not_function_char:
  "CHR ''/'' \<notin> set (lower_chars @ upper_chars @ digit_chars @ ''-_'')"
  by (simp add: char_defs)

lemma function_chars_no_slash:
  assumes "valid_function_name_chars (p @ t)"
  shows "CHR ''/'' \<notin> set t"
proof -
  from assms
  have "list_all (\<lambda>x. x \<in> set (lower_chars @ upper_chars @ digit_chars @ ''-_'')) (p @ t)"
    by (simp only: valid_function_name_chars_def)
  then have "list_all (\<lambda>x. x \<in> set (lower_chars @ upper_chars @ digit_chars @ ''-_'')) t"
    by (simp only: list_all_append)
  then have "\<forall>x\<in>set t. x \<in> set (lower_chars @ upper_chars @ digit_chars @ ''-_'')"
    by (simp only: list_all_iff)
  with slash_not_function_char show ?thesis by blast
qed

lemma prSuffix_cases:
  "prSuffix_of (prNumber_of ctx) =
     (case tryGetContext ctx ''prNumber'' of None \<Rightarrow> ''''
      | Some c \<Rightarrow> if \<not> truthy c \<or> c = JString ''default'' then '''' else ''-pr-'' @ template_text c)"
  by (simp add: prSuffix_of_def prNumber_of_def js_or_def split: option.splits)

lemma stackName_cases:
  "stackName_of ctx =
     (case tryGetContext ctx ''prNumber'' of None \<Rightarrow> ''CustomerReviewsIacStack''
      | Some c \<Rightarrow> if \<not> truthy c \<or> c = JString ''default'' then ''CustomerReviewsIacStack''
                  else ''CustomerReviewsIacStack-'' @ template_text c)"
  by (simp add: stackName_of_def js_or_def Let_def split: option.splits)

text \<open>The stack the app constructs has the id the entry point gave it, and that is its name.\<close>

lemma app_stack_id:
  assumes "app ctx sys = Inr s"
  shows "stackId s = stackName_of ctx \<and> stackName s = stackName_of ctx"
proof -
  from assms have c: "CustomerReviewsIacStack ctx sys (stackName_of ctx) agnostic = Inr s"
    by (simp add: app_def agnostic_def)
  then have acc: "names_accepted ctx sys (stackName_of ctx) agnostic" by (rule constructed(3))
  have plainid: "CHR ''/'' \<notin> set (stackName_of ctx) \<and> length (stackName_of ctx) \<le> 128"
  proof (cases "prSuffix_of (prNumber_of ctx) = ''''")
    case True
    then have "stackName_of ctx = ''CustomerReviewsIacStack''"
      by (auto simp: prSuffix_cases stackName_cases split: option.splits if_splits)
    then show ?thesis by simp
  next
    case False
    then obtain c where c: "tryGetContext ctx ''prNumber'' = Some c" "truthy c" "c \<noteq> JString ''default''"
      by (auto simp: prSuffix_cases split: option.splits if_splits)
    then have sfx: "prSuffix_of (prNumber_of ctx) = ''-pr-'' @ template_text c"
      and nm: "stackName_of ctx = ''CustomerReviewsIacStack-'' @ template_text c"
      by (simp_all add: prSuffix_cases stackName_cases)
    from acc sfx have v: "valid_function_name_chars (''mock-api-lambda-pr-'' @ template_text c)"
      and l: "length (''customer-reviews-lambda-pr-'' @ template_text c) \<le> 64"
      by (simp_all add: names_accepted_def)
    from v have "CHR ''/'' \<notin> set (template_text c)" by (rule function_chars_no_slash)
    moreover from l have "length (template_text c) \<le> 37" by simp
    ultimately show ?thesis using nm by simp
  qed
  then have "sanitizeId (stackName_of ctx) = stackName_of ctx" by (simp add: sanitizeId_plain)
  with c plainid show ?thesis by (simp add: CustomerReviewsIacStack_Inr)
qed

lemma app_constructs:
  assumes "names_accepted ctx sys (stackName_of ctx) agnostic" and "assets_present sys"
  shows "\<not> isl (app ctx sys)"
proof -
  from assms have "\<exists>s. CustomerReviewsIacStack ctx sys (stackName_of ctx) agnostic = Inr s"
    by (simp add: CustomerReviewsIacStack_Inr)
  then show ?thesis by (auto simp: app_def agnostic_def)
qed

lemma example_app_42: "\<not> isl (app [''prNumber'' \<mapsto> JString ''42''] example_process)"
proof -
  have "names_accepted [''prNumber'' \<mapsto> JString ''42''] example_process
          (stackName_of [''prNumber'' \<mapsto> JString ''42'']) agnostic"
    by (simp add: names_accepted_def sanitizeId_def prSuffix_cases stackName_cases
        tryGetContext_def agnostic_def valid_function_name_chars_def char_defs)
  then show ?thesis using example_assets by (rule app_constructs)
qed

lemma example_app_absent: "\<not> isl (app Map.empty example_process)"
proof -
  have "names_accepted Map.empty example_process (stackName_of Map.empty) agnostic"
    by (simp add: names_accepted_def sanitizeId_def prSuffix_cases stackName_cases
        tryGetContext_def agnostic_def valid_function_name_chars_def char_defs)
  then show ?thesis using example_assets by (rule app_constructs)
qed

lemma example_app_empty: "\<not> isl (app [''prNumber'' \<mapsto> JString ''''] example_process)"
proof -
  have "names_accepted [''prNumber'' \<mapsto> JString ''''] example_process
          (stackName_of [''prNumber'' \<mapsto> JString '''']) agnostic"
    by (simp add: names_accepted_def sanitizeId_def prSuffix_cases stackName_cases
        tryGetContext_def agnostic_def valid_function_name_chars_def char_defs)
  then show ?thesis using example_assets by (rule app_constructs)
qed

section \<open>Claims about the stack\<close>

text \<open>
  C1 (the code departs from it). The claim is that the rule fires once every hour. In the
  code the rule named \<open>HourlyReviewsUpdate\<close>, described as triggering every hour, is
  declared with the schedule \<open>rate(5 minutes)\<close>, and every stack the constructor returns
  has it so: a period of 300 seconds, where an hour is 3600 seconds.
\<close>

theorem C1_rule_fires_every_five_minutes:
  "rule_schedule hourlyRule_props = Rate (Duration 5 Minutes)
   \<and> toSeconds (Duration 5 Minutes) = 300
   \<and> toSeconds (Duration 1 Hours) = 3600
   \<and> (CustomerReviewsIacStack ctx sys sid props = Inr s \<longrightarrow>
        map_option rule_schedule (rule_of s ''HourlyReviewsUpdate'')
          = Some (Rate (Duration 5 Minutes)))"
  by (auto simp: rule_of_def constructed_lookup hourlyRule_props_def)

text \<open>The rule of the stack constructed in the example, without \<open>prNumber\<close>.\<close>

theorem C1_rule_fires_every_five_minutes_witness:
  "\<not> isl (CustomerReviewsIacStack Map.empty example_process ''CustomerReviewsIacStack'' agnostic)
   \<and> map_option rule_schedule
        (rule_of (projr (CustomerReviewsIacStack Map.empty example_process
                           ''CustomerReviewsIacStack'' agnostic))
           ''HourlyReviewsUpdate'')
       = Some (Rate (Duration 5 Minutes))"
  using C1_rule_fires_every_five_minutes
          [of Map.empty example_process "''CustomerReviewsIacStack''" agnostic
              "projr (CustomerReviewsIacStack Map.empty example_process
                        ''CustomerReviewsIacStack'' agnostic)"]
        projr_Inr [OF example_constructed] example_constructed
  by simp

text \<open>
  C2 (amended). For every value of the \<open>prNumber\<close> context, present or absent, for which
  the constructor returns a stack, that stack has exactly one bucket, exactly one
  EventBridge rule, exactly one REST API and exactly two functions declared by the
  constructor, the mock API Lambda and the reviews Lambda; its Lambda function resources
  are three, those two and the handler of the provider that the bucket adds for
  \<open>autoDeleteObjects\<close>; and it has eleven children in all.
\<close>

theorem C2_declared_resources:
  "CustomerReviewsIacStack ctx sys sid props = Inr s \<longrightarrow>
     ids_where is_bucket s = [''ReviewsFragmentsBucket'']
   \<and> ids_where is_function s = [''MockApiLambda'', ''ReviewsLambda'']
   \<and> ids_where is_rule s = [''HourlyReviewsUpdate'']
   \<and> ids_where is_rest_api s = [''MockApiGateway'']
   \<and> map_option functionName (function_of s ''MockApiLambda'')
        = Some (''mock-api-lambda'' @ prSuffix_of (prNumber_of ctx))
   \<and> map_option functionName (function_of s ''ReviewsLambda'')
        = Some (''customer-reviews-lambda'' @ prSuffix_of (prNumber_of ctx))
   \<and> lambda_function_resources (children s)
        = [''Custom::S3AutoDeleteObjectsCustomResourceProvider/Handler'',
           ''MockApiLambda/Resource'', ''ReviewsLambda/Resource'']
   \<and> length (children s) = 11"
  by (auto simp: ids_where_def constructed(1) outputs_def function_of_def
      constructed_lookup mockApiLambda_props_def reviewsLambda_props_def)

text \<open>The amended claim for the stack constructed in the example, without \<open>prNumber\<close>.\<close>

theorem C2_declared_resources_witness:
  "\<not> isl (CustomerReviewsIacStack Map.empty example_process ''CustomerReviewsIacStack'' agnostic)
   \<and> ids_where is_function
        (projr (CustomerReviewsIacStack Map.empty example_process ''CustomerReviewsIacStack'' agnostic))
       = [''MockApiLambda'', ''ReviewsLambda'']
   \<and> ids_where is_bucket
        (projr (CustomerReviewsIacStack Map.empty example_process ''CustomerReviewsIacStack'' agnostic))
       = [''ReviewsFragmentsBucket'']
   \<and> length (children
        (projr (CustomerReviewsIacStack Map.empty example_process ''CustomerReviewsIacStack'' agnostic)))
       = 11"
  using C2_declared_resources
          [of Map.empty example_process "''CustomerReviewsIacStack''" agnostic
              "projr (CustomerReviewsIacStack Map.empty example_process
                        ''CustomerReviewsIacStack'' agnostic)"]
        projr_Inr [OF example_constructed] example_constructed
  by simp

text \<open>
  C2 as first stated has exactly two Lambda functions for every value of \<open>prNumber\<close>. The
  stack constructed in the example has three Lambda function resources, and for the value
  \<open>a.b\<close> the constructor returns no stack, the name of the first function being refused.
\<close>

theorem C2_third_function_counterexample:
  "map_sum id (lambda_function_resources \<circ> children)
     (CustomerReviewsIacStack Map.empty example_process ''CustomerReviewsIacStack'' agnostic)
     = Inr [''Custom::S3AutoDeleteObjectsCustomResourceProvider/Handler'',
            ''MockApiLambda/Resource'', ''ReviewsLambda/Resource'']
   \<and> length [''Custom::S3AutoDeleteObjectsCustomResourceProvider/Handler'',
              ''MockApiLambda/Resource'', ''ReviewsLambda/Resource''] \<noteq> (2::nat)
   \<and> CustomerReviewsIacStack [''prNumber'' \<mapsto> JString ''a.b''] example_process
        ''CustomerReviewsIacStack'' agnostic
     = Inl (InvalidFunctionName ''mock-api-lambda-pr-a.b'')"
proof -
  let ?c = "CustomerReviewsIacStack Map.empty example_process ''CustomerReviewsIacStack'' agnostic"
  have c: "?c = Inr (projr ?c)" using example_constructed by (rule projr_Inr)
  have "lambda_function_resources (children (projr ?c))
          = [''Custom::S3AutoDeleteObjectsCustomResourceProvider/Handler'',
             ''MockApiLambda/Resource'', ''ReviewsLambda/Resource'']"
    by (simp add: constructed(1) [OF c] outputs_def)
  with c have first: "map_sum id (lambda_function_resources \<circ> children) ?c
          = Inr [''Custom::S3AutoDeleteObjectsCustomResourceProvider/Handler'',
                 ''MockApiLambda/Resource'', ''ReviewsLambda/Resource'']"
    by (metis comp_apply map_sum.simps(2))
  have refused: "CustomerReviewsIacStack [''prNumber'' \<mapsto> JString ''a.b''] example_process
        ''CustomerReviewsIacStack'' agnostic
     = Inl (InvalidFunctionName ''mock-api-lambda-pr-a.b'')"
    by (simp add: CustomerReviewsIacStack_def on_success_def Stack_new_def sanitizeId_def Let_def
        new_Bucket_def new_construct_def new_Function_def prSuffix_cases tryGetContext_def
        reviewsBucket_props_def mockApiLambda_props_def isUnresolved_def this_account_def agnostic_def
        getOrCreateProvider_def auto_delete_provider_id_def valid_function_name_chars_def char_defs)
  from first refused show ?thesis by simp
qed

text \<open>
  C3. In every stack the constructor returns, the code of the reviews Lambda is the asset
  directory \<open>customer-reviews-app/dist\<close> joined to the working directory of the process,
  the code of the mock API Lambda is \<open>customer-reviews-app/dist/mock-api\<close> joined to it,
  these are the only functions the constructor declares and none of them carries inline
  handler source. For a working directory \<open>/d1/.../dn\<close> in normal form the two directories
  are \<open>/d1/.../dn/customer-reviews-app/dist\<close> and
  \<open>/d1/.../dn/customer-reviews-app/dist/mock-api\<close>.
\<close>

theorem C3_lambda_code_is_external_asset:
  "CustomerReviewsIacStack ctx sys sid props = Inr s \<longrightarrow>
     map_option fn_code (function_of s ''ReviewsLambda'')
       = Some (FromAsset (path_join [cwd sys, ''customer-reviews-app/dist'']))
   \<and> map_option fn_code (function_of s ''MockApiLambda'')
       = Some (FromAsset (path_join [cwd sys, ''customer-reviews-app/dist/mock-api'']))
   \<and> map fn_code (functions_in (children s))
       = [FromAsset (path_join [cwd sys, ''customer-reviews-app/dist/mock-api'']),
          FromAsset (path_join [cwd sys, ''customer-reviews-app/dist''])]
   \<and> (\<forall>src. FromInline src \<notin> set (map fn_code (functions_in (children s))))
   \<and> (list_all plain ds \<and> cwd sys = ''/'' @ join_slash ds \<longrightarrow>
        map_option fn_code (function_of s ''ReviewsLambda'')
          = Some (FromAsset (''/'' @ join_slash (ds @ [''customer-reviews-app'', ''dist''])))
      \<and> map_option fn_code (function_of s ''MockApiLambda'')
          = Some (FromAsset (''/'' @ join_slash (ds @ [''customer-reviews-app'', ''dist'', ''mock-api'']))))"
proof
  assume c: "CustomerReviewsIacStack ctx sys sid props = Inr s"
  have assets:
    "map_option fn_code (function_of s ''ReviewsLambda'')
       = Some (FromAsset (path_join [cwd sys, ''customer-reviews-app/dist'']))"
    "map_option fn_code (function_of s ''MockApiLambda'')
       = Some (FromAsset (path_join [cwd sys, ''customer-reviews-app/dist/mock-api'']))"
    by (simp_all add: function_of_def constructed_lookup [OF c] mockApiLambda_props_def
        reviewsLambda_props_def)
  have only:
    "map fn_code (functions_in (children s))
       = [FromAsset (path_join [cwd sys, ''customer-reviews-app/dist/mock-api'']),
          FromAsset (path_join [cwd sys, ''customer-reviews-app/dist''])]"
    by (simp add: constructed(1) [OF c] outputs_def mockApiLambda_props_def
        reviewsLambda_props_def)
  have dist: "list_all plain [''customer-reviews-app'', ''dist'']"
    and mock: "list_all plain [''customer-reviews-app'', ''dist'', ''mock-api'']"
    by (simp_all add: plain_def)
  have resolved:
    "path_join [cwd sys, ''customer-reviews-app/dist'']
       = ''/'' @ join_slash (ds @ [''customer-reviews-app'', ''dist''])"
    "path_join [cwd sys, ''customer-reviews-app/dist/mock-api'']
       = ''/'' @ join_slash (ds @ [''customer-reviews-app'', ''dist'', ''mock-api''])"
    if "list_all plain ds" "cwd sys = ''/'' @ join_slash ds"
    using that path_join_cwd [OF that(1) dist] path_join_cwd [OF that(1) mock] by simp_all
  have under:
    "list_all plain ds \<and> cwd sys = ''/'' @ join_slash ds \<longrightarrow>
        map_option fn_code (function_of s ''ReviewsLambda'')
          = Some (FromAsset (''/'' @ join_slash (ds @ [''customer-reviews-app'', ''dist''])))
      \<and> map_option fn_code (function_of s ''MockApiLambda'')
          = Some (FromAsset (''/'' @ join_slash (ds @ [''customer-reviews-app'', ''dist'', ''mock-api''])))"
  proof (intro impI conjI)
    assume h: "list_all plain ds \<and> cwd sys = ''/'' @ join_slash ds"
    then have r: "path_join [cwd sys, ''customer-reviews-app/dist'']
                    = ''/'' @ join_slash (ds @ [''customer-reviews-app'', ''dist''])"
      and m: "path_join [cwd sys, ''customer-reviews-app/dist/mock-api'']
                    = ''/'' @ join_slash (ds @ [''customer-reviews-app'', ''dist'', ''mock-api''])"
      using resolved by blast+
    from assets(1) r
    show "map_option fn_code (function_of s ''ReviewsLambda'')
          = Some (FromAsset (''/'' @ join_slash (ds @ [''customer-reviews-app'', ''dist''])))"
      by (simp only:)
    from assets(2) m
    show "map_option fn_code (function_of s ''MockApiLambda'')
          = Some (FromAsset (''/'' @ join_slash (ds @ [''customer-reviews-app'', ''dist'', ''mock-api''])))"
      by (simp only:)
  qed
  have inline: "\<forall>src. FromInline src \<notin> set (map fn_code (functions_in (children s)))"
    by (simp add: only)
  from assets only inline under
  show "map_option fn_code (function_of s ''ReviewsLambda'')
       = Some (FromAsset (path_join [cwd sys, ''customer-reviews-app/dist'']))
   \<and> map_option fn_code (function_of s ''MockApiLambda'')
       = Some (FromAsset (path_join [cwd sys, ''customer-reviews-app/dist/mock-api'']))
   \<and> map fn_code (functions_in (children s))
       = [FromAsset (path_join [cwd sys, ''customer-reviews-app/dist/mock-api'']),
          FromAsset (path_join [cwd sys, ''customer-reviews-app/dist''])]
   \<and> (\<forall>src. FromInline src \<notin> set (map fn_code (functions_in (children s))))
   \<and> (list_all plain ds \<and> cwd sys = ''/'' @ join_slash ds \<longrightarrow>
        map_option fn_code (function_of s ''ReviewsLambda'')
          = Some (FromAsset (''/'' @ join_slash (ds @ [''customer-reviews-app'', ''dist''])))
      \<and> map_option fn_code (function_of s ''MockApiLambda'')
          = Some (FromAsset (''/'' @ join_slash (ds @ [''customer-reviews-app'', ''dist'', ''mock-api'']))))"
    by blast
qed

text \<open>The claim for the stack of the example, in \<open>/var/jenkins/workspace/iac\<close>.\<close>

theorem C3_lambda_code_is_external_asset_witness:
  "\<not> isl (CustomerReviewsIacStack Map.empty example_process ''CustomerReviewsIacStack'' agnostic)
   \<and> list_all plain [''var'', ''jenkins'', ''workspace'', ''iac'']
   \<and> cwd example_process = ''/'' @ join_slash [''var'', ''jenkins'', ''workspace'', ''iac'']
   \<and> map_option fn_code
        (function_of (projr (CustomerReviewsIacStack Map.empty example_process
                               ''CustomerReviewsIacStack'' agnostic)) ''ReviewsLambda'')
       = Some (FromAsset ''/var/jenkins/workspace/iac/customer-reviews-app/dist'')
   \<and> map_option fn_code
        (function_of (projr (CustomerReviewsIacStack Map.empty example_process
                               ''CustomerReviewsIacStack'' agnostic)) ''MockApiLambda'')
       = Some (FromAsset ''/var/jenkins/workspace/iac/customer-reviews-app/dist/mock-api'')"
proof -
  have p: "list_all plain [''var'', ''jenkins'', ''workspace'', ''iac'']"
    by (simp add: plain_def)
  have c: "cwd example_process = ''/'' @ join_slash [''var'', ''jenkins'', ''workspace'', ''iac'']"
    by (simp add: example_process_def)
  from C3_lambda_code_is_external_asset
         [of Map.empty example_process "''CustomerReviewsIacStack''" agnostic
             "projr (CustomerReviewsIacStack Map.empty example_process
                       ''CustomerReviewsIacStack'' agnostic)"
             "[''var'', ''jenkins'', ''workspace'', ''iac'']"]
       projr_Inr [OF example_constructed] p c example_constructed
  show ?thesis by simp
qed

text \<open>
  C5. In every stack the constructor returns, the schedule of the only rule is a rate
  expression and not a cron expression; the rule has exactly one target, the reviews
  Lambda; and the mock API Lambda is not among the targets of any rule of the stack.
\<close>

theorem C5_rule_targets_reviews_lambda_only:
  "CustomerReviewsIacStack ctx sys sid props = Inr s \<longrightarrow>
     (\<exists>d. map_option rule_schedule (rule_of s ''HourlyReviewsUpdate'') = Some (Rate d))
   \<and> (\<forall>c. map_option rule_schedule (rule_of s ''HourlyReviewsUpdate'') \<noteq> Some (Cron c))
   \<and> map_option rule_targets (rule_of s ''HourlyReviewsUpdate'')
        = Some [LambdaFunction ''ReviewsLambda'']
   \<and> map_option functionName (function_of s ''ReviewsLambda'')
        = Some (''customer-reviews-lambda'' @ prSuffix_of (prNumber_of ctx))
   \<and> ids_where is_rule s = [''HourlyReviewsUpdate'']
   \<and> concat (map rule_targets (rules_in (children s))) = [LambdaFunction ''ReviewsLambda'']
   \<and> LambdaFunction ''MockApiLambda'' \<notin> set (concat (map rule_targets (rules_in (children s))))"
  by (auto simp: rule_of_def function_of_def constructed_lookup ids_where_def
      constructed(1) outputs_def hourlyRule_props_def reviewsLambda_props_def)

text \<open>The claim for the stack constructed in the example.\<close>

theorem C5_rule_targets_reviews_lambda_only_witness:
  "\<not> isl (CustomerReviewsIacStack Map.empty example_process ''CustomerReviewsIacStack'' agnostic)
   \<and> map_option rule_targets
        (rule_of (projr (CustomerReviewsIacStack Map.empty example_process
                           ''CustomerReviewsIacStack'' agnostic)) ''HourlyReviewsUpdate'')
       = Some [LambdaFunction ''ReviewsLambda'']
   \<and> concat (map rule_targets (rules_in (children
        (projr (CustomerReviewsIacStack Map.empty example_process
                  ''CustomerReviewsIacStack'' agnostic)))))
       = [LambdaFunction ''ReviewsLambda'']"
  using C5_rule_targets_reviews_lambda_only
          [of Map.empty example_process "''CustomerReviewsIacStack''" agnostic
              "projr (CustomerReviewsIacStack Map.empty example_process
                        ''CustomerReviewsIacStack'' agnostic)"]
        projr_Inr [OF example_constructed] example_constructed
  by simp

text \<open>
  C9. In every stack the constructor returns, whatever the context, the only bucket has
  public read access, all four block-public-access flags false, one CORS rule allowing GET
  from any origin with any headers, the removal policy DESTROY and automatic deletion of
  its objects.
\<close>

theorem C9_bucket_world_readable_and_disposable:
  "CustomerReviewsIacStack ctx sys sid props = Inr s \<longrightarrow>
     map_option publicReadAccess (bucket_of s ''ReviewsFragmentsBucket'') = Some True
   \<and> map_option blockPublicAccess (bucket_of s ''ReviewsFragmentsBucket'')
       = Some \<lparr>blockPublicAcls = False, blockPublicPolicy = False,
                ignorePublicAcls = False, restrictPublicBuckets = False\<rparr>
   \<and> map_option cors (bucket_of s ''ReviewsFragmentsBucket'')
       = Some [\<lparr>allowedMethods = [GET], allowedOrigins = [''*''], allowedHeaders = [''*'']\<rparr>]
   \<and> map_option removalPolicy (bucket_of s ''ReviewsFragmentsBucket'') = Some DESTROY
   \<and> map_option autoDeleteObjects (bucket_of s ''ReviewsFragmentsBucket'') = Some True
   \<and> ids_where is_bucket s = [''ReviewsFragmentsBucket'']"
  by (auto simp: bucket_of_def constructed_lookup reviewsBucket_props_def ids_where_def
      constructed(1) outputs_def)

text \<open>The claim for the stack constructed in the example.\<close>

theorem C9_bucket_world_readable_and_disposable_witness:
  "\<not> isl (CustomerReviewsIacStack Map.empty example_process ''CustomerReviewsIacStack'' agnostic)
   \<and> map_option publicReadAccess
        (bucket_of (projr (CustomerReviewsIacStack Map.empty example_process
                             ''CustomerReviewsIacStack'' agnostic)) ''ReviewsFragmentsBucket'')
       = Some True
   \<and> map_option removalPolicy
        (bucket_of (projr (CustomerReviewsIacStack Map.empty example_process
                             ''CustomerReviewsIacStack'' agnostic)) ''ReviewsFragmentsBucket'')
       = Some DESTROY
   \<and> map_option autoDeleteObjects
        (bucket_of (projr (CustomerReviewsIacStack Map.empty example_process
                             ''CustomerReviewsIacStack'' agnostic)) ''ReviewsFragmentsBucket'')
       = Some True"
  using C9_bucket_world_readable_and_disposable
          [of Map.empty example_process "''CustomerReviewsIacStack''" agnostic
              "projr (CustomerReviewsIacStack Map.empty example_process
                        ''CustomerReviewsIacStack'' agnostic)"]
        projr_Inr [OF example_constructed] example_constructed
  by simp

text \<open>
  C8 (amended). For every \<open>prNumber\<close> context value for which the app constructs the
  stack: when the value is present, truthy (not the empty string) and not the string
  \<open>default\<close>, the bucket, the two functions and the REST API carry the suffix \<open>-pr-\<close> and
  the text of the value, the bucket name ending in \<open>-\<close> and the account of the deployment,
  and the stack has the id and the name \<open>CustomerReviewsIacStack-\<close> and the text of the
  value; when it is absent, falsy or \<open>default\<close>, every one of these names is the
  un-suffixed name. For a value that makes a name the framework refuses no stack is
  constructed: so for \<open>a.b\<close> and \<open>a_b\<close>, which no stack name can hold, and for a value of
  40 characters, with which the name of the reviews Lambda is longer than 64.
\<close>

theorem C8_names_follow_pr_suffix:
  "app [''prNumber'' \<mapsto> JString ''a.b''] sys = Inl (StackNameInvalidFormat ''CustomerReviewsIacStack-a.b'')
   \<and> app [''prNumber'' \<mapsto> JString ''a_b''] sys = Inl (StackNameInvalidFormat ''CustomerReviewsIacStack-a_b'')
   \<and> (assets_present sys \<longrightarrow>
        app [''prNumber'' \<mapsto> JString ''0123456789012345678901234567890123456789''] sys
          = Inl (FunctionNameTooLong
                   ''customer-reviews-lambda-pr-0123456789012345678901234567890123456789''))
   \<and> (app ctx sys = Inr s \<longrightarrow>
        (\<forall>c. tryGetContext ctx ''prNumber'' = Some c \<and> truthy c \<and> c \<noteq> JString ''default'' \<longrightarrow>
           map_option (\<lambda>b. resolve tokens (bucketName b)) (bucket_of s ''ReviewsFragmentsBucket'')
             = Some (''customer-reviews-fragments-pr-'' @ template_text c @ ''-''
                     @ tokens (Pseudo ''AWS::AccountId''))
         \<and> map_option functionName (function_of s ''MockApiLambda'')
             = Some (''mock-api-lambda-pr-'' @ template_text c)
         \<and> map_option functionName (function_of s ''ReviewsLambda'')
             = Some (''customer-reviews-lambda-pr-'' @ template_text c)
         \<and> map_option restApiName (rest_api_of s ''MockApiGateway'')
             = Some (''CustomerReviewsMockAPI-pr-'' @ template_text c)
         \<and> stackId s = ''CustomerReviewsIacStack-'' @ template_text c
         \<and> stackName s = ''CustomerReviewsIacStack-'' @ template_text c)
      \<and> (tryGetContext ctx ''prNumber'' = None
           \<or> (\<exists>c. tryGetContext ctx ''prNumber'' = Some c \<and> (\<not> truthy c \<or> c = JString ''default''))
          \<longrightarrow>
           map_option (\<lambda>b. resolve tokens (bucketName b)) (bucket_of s ''ReviewsFragmentsBucket'')
             = Some (''customer-reviews-fragments-'' @ tokens (Pseudo ''AWS::AccountId''))
         \<and> map_option functionName (function_of s ''MockApiLambda'') = Some ''mock-api-lambda''
         \<and> map_option functionName (function_of s ''ReviewsLambda'') = Some ''customer-reviews-lambda''
         \<and> map_option restApiName (rest_api_of s ''MockApiGateway'') = Some ''CustomerReviewsMockAPI''
         \<and> stackId s = ''CustomerReviewsIacStack''
         \<and> stackName s = ''CustomerReviewsIacStack''))"
proof -
  have dot: "app [''prNumber'' \<mapsto> JString ''a.b''] sys
               = Inl (StackNameInvalidFormat ''CustomerReviewsIacStack-a.b'')"
    by (simp add: app_def CustomerReviewsIacStack_def on_success_def Stack_new_def sanitizeId_def
        stackName_cases tryGetContext_def char_defs)
  have underscore: "app [''prNumber'' \<mapsto> JString ''a_b''] sys
               = Inl (StackNameInvalidFormat ''CustomerReviewsIacStack-a_b'')"
    by (simp add: app_def CustomerReviewsIacStack_def on_success_def Stack_new_def sanitizeId_def
        stackName_cases tryGetContext_def char_defs)
  have long: "app [''prNumber'' \<mapsto> JString ''0123456789012345678901234567890123456789''] sys
          = Inl (FunctionNameTooLong
                   ''customer-reviews-lambda-pr-0123456789012345678901234567890123456789'')"
    if "assets_present sys"
    using that
    by (auto simp: app_def CustomerReviewsIacStack_def on_success_def Stack_new_def sanitizeId_def
        Let_def stackName_cases prSuffix_cases tryGetContext_def new_Bucket_def new_construct_def
        new_Function_def reviewsBucket_props_def mockApiLambda_props_def reviewsLambda_props_def
        isUnresolved_def this_account_def getOrCreateProvider_def auto_delete_provider_id_def
        valid_function_name_chars_def stage_asset_def assets_present_def char_defs
        split: option.splits path_kind.splits)
  have names: "app ctx sys = Inr s \<longrightarrow>
        (\<forall>c. tryGetContext ctx ''prNumber'' = Some c \<and> truthy c \<and> c \<noteq> JString ''default'' \<longrightarrow>
           map_option (\<lambda>b. resolve tokens (bucketName b)) (bucket_of s ''ReviewsFragmentsBucket'')
             = Some (''customer-reviews-fragments-pr-'' @ template_text c @ ''-''
                     @ tokens (Pseudo ''AWS::AccountId''))
         \<and> map_option functionName (function_of s ''MockApiLambda'')
             = Some (''mock-api-lambda-pr-'' @ template_text c)
         \<and> map_option functionName (function_of s ''ReviewsLambda'')
             = Some (''customer-reviews-lambda-pr-'' @ template_text c)
         \<and> map_option restApiName (rest_api_of s ''MockApiGateway'')
             = Some (''CustomerReviewsMockAPI-pr-'' @ template_text c)
         \<and> stackId s = ''CustomerReviewsIacStack-'' @ template_text c
         \<and> stackName s = ''CustomerReviewsIacStack-'' @ template_text c)
      \<and> (tryGetContext ctx ''prNumber'' = None
           \<or> (\<exists>c. tryGetContext ctx ''prNumber'' = Some c \<and> (\<not> truthy c \<or> c = JString ''default''))
          \<longrightarrow>
           map_option (\<lambda>b. resolve tokens (bucketName b)) (bucket_of s ''ReviewsFragmentsBucket'')
             = Some (''customer-reviews-fragments-'' @ tokens (Pseudo ''AWS::AccountId''))
         \<and> map_option functionName (function_of s ''MockApiLambda'') = Some ''mock-api-lambda''
         \<and> map_option functionName (function_of s ''ReviewsLambda'') = Some ''customer-reviews-lambda''
         \<and> map_option restApiName (rest_api_of s ''MockApiGateway'') = Some ''CustomerReviewsMockAPI''
         \<and> stackId s = ''CustomerReviewsIacStack''
         \<and> stackName s = ''CustomerReviewsIacStack'')"
  proof
    assume a: "app ctx sys = Inr s"
    then have c: "CustomerReviewsIacStack ctx sys (stackName_of ctx) agnostic = Inr s"
      by (simp add: app_def agnostic_def)
    note look = constructed_lookup [OF c]
    note ids = app_stack_id [OF a]
    have props:
      "map_option (\<lambda>b. resolve tokens (bucketName b)) (bucket_of s ''ReviewsFragmentsBucket'')
         = Some (''customer-reviews-fragments'' @ prSuffix_of (prNumber_of ctx) @ ''-''
                 @ tokens (Pseudo ''AWS::AccountId''))"
      "map_option functionName (function_of s ''MockApiLambda'')
         = Some (''mock-api-lambda'' @ prSuffix_of (prNumber_of ctx))"
      "map_option functionName (function_of s ''ReviewsLambda'')
         = Some (''customer-reviews-lambda'' @ prSuffix_of (prNumber_of ctx))"
      "map_option restApiName (rest_api_of s ''MockApiGateway'')
         = Some (''CustomerReviewsMockAPI'' @ prSuffix_of (prNumber_of ctx))"
      by (simp_all add: bucket_of_def function_of_def rest_api_of_def look reviewsBucket_props_def
          mockApiLambda_props_def reviewsLambda_props_def mockApi_props_def resolve_def
          this_account_def agnostic_def)
    show "(\<forall>c. tryGetContext ctx ''prNumber'' = Some c \<and> truthy c \<and> c \<noteq> JString ''default'' \<longrightarrow>
           map_option (\<lambda>b. resolve tokens (bucketName b)) (bucket_of s ''ReviewsFragmentsBucket'')
             = Some (''customer-reviews-fragments-pr-'' @ template_text c @ ''-''
                     @ tokens (Pseudo ''AWS::AccountId''))
         \<and> map_option functionName (function_of s ''MockApiLambda'')
             = Some (''mock-api-lambda-pr-'' @ template_text c)
         \<and> map_option functionName (function_of s ''ReviewsLambda'')
             = Some (''customer-reviews-lambda-pr-'' @ template_text c)
         \<and> map_option restApiName (rest_api_of s ''MockApiGateway'')
             = Some (''CustomerReviewsMockAPI-pr-'' @ template_text c)
         \<and> stackId s = ''CustomerReviewsIacStack-'' @ template_text c
         \<and> stackName s = ''CustomerReviewsIacStack-'' @ template_text c)
      \<and> (tryGetContext ctx ''prNumber'' = None
           \<or> (\<exists>c. tryGetContext ctx ''prNumber'' = Some c \<and> (\<not> truthy c \<or> c = JString ''default''))
          \<longrightarrow>
           map_option (\<lambda>b. resolve tokens (bucketName b)) (bucket_of s ''ReviewsFragmentsBucket'')
             = Some (''customer-reviews-fragments-'' @ tokens (Pseudo ''AWS::AccountId''))
         \<and> map_option functionName (function_of s ''MockApiLambda'') = Some ''mock-api-lambda''
         \<and> map_option functionName (function_of s ''ReviewsLambda'') = Some ''customer-reviews-lambda''
         \<and> map_option restApiName (rest_api_of s ''MockApiGateway'') = Some ''CustomerReviewsMockAPI''
         \<and> stackId s = ''CustomerReviewsIacStack''
         \<and> stackName s = ''CustomerReviewsIacStack'')"
      unfolding props ids [THEN conjunct1] ids [THEN conjunct2]
      by (auto simp: prSuffix_cases stackName_cases)
  qed
  from dot underscore long names show ?thesis by blast
qed

text \<open>
  The amended claim in the example, at the number 42 and at a context without
  \<open>prNumber\<close>.
\<close>

theorem C8_names_follow_pr_suffix_witness:
  "assets_present example_process
   \<and> \<not> isl (app [''prNumber'' \<mapsto> JString ''42''] example_process)
   \<and> tryGetContext [''prNumber'' \<mapsto> JString ''42''] ''prNumber'' = Some (JString ''42'')
   \<and> truthy (JString ''42'') \<and> JString ''42'' \<noteq> JString ''default''
   \<and> map_option functionName
        (function_of (projr (app [''prNumber'' \<mapsto> JString ''42''] example_process)) ''ReviewsLambda'')
       = Some ''customer-reviews-lambda-pr-42''
   \<and> stackName (projr (app [''prNumber'' \<mapsto> JString ''42''] example_process))
       = ''CustomerReviewsIacStack-42''
   \<and> \<not> isl (app Map.empty example_process)
   \<and> tryGetContext Map.empty ''prNumber'' = None
   \<and> map_option functionName
        (function_of (projr (app Map.empty example_process)) ''ReviewsLambda'')
       = Some ''customer-reviews-lambda''
   \<and> stackName (projr (app Map.empty example_process)) = ''CustomerReviewsIacStack''"
proof -
  have t: "tryGetContext [''prNumber'' \<mapsto> JString ''42''] ''prNumber'' = Some (JString ''42'')"
    and n: "tryGetContext Map.empty ''prNumber'' = None"
    by (simp_all add: tryGetContext_def)
  from C8_names_follow_pr_suffix
         [of example_process "[''prNumber'' \<mapsto> JString ''42'']"
             "projr (app [''prNumber'' \<mapsto> JString ''42''] example_process)"]
       projr_Inr [OF example_app_42] t
  have a: "map_option functionName
        (function_of (projr (app [''prNumber'' \<mapsto> JString ''42''] example_process)) ''ReviewsLambda'')
       = Some ''customer-reviews-lambda-pr-42''
     \<and> stackName (projr (app [''prNumber'' \<mapsto> JString ''42''] example_process))
       = ''CustomerReviewsIacStack-42''"
    by simp
  from C8_names_follow_pr_suffix
         [of example_process Map.empty "projr (app Map.empty example_process)"]
       projr_Inr [OF example_app_absent] n
  have b: "map_option functionName
        (function_of (projr (app Map.empty example_process)) ''ReviewsLambda'')
       = Some ''customer-reviews-lambda''
     \<and> stackName (projr (app Map.empty example_process)) = ''CustomerReviewsIacStack''"
    by simp
  from a b t n example_assets example_app_42 example_app_absent show ?thesis by simp
qed

text \<open>
  C8 as first stated asks for the suffixed names whenever the value is present and not
  \<open>default\<close>. The empty string is such a value (\<open>--context prNumber=\<close>); the app constructs
  the stack for it, and the names are the un-suffixed ones, since \<open>||\<close> replaces it by
  \<open>default\<close>.
\<close>

theorem C8_empty_prNumber_counterexample:
  "tryGetContext [''prNumber'' \<mapsto> JString ''''] ''prNumber'' = Some (JString '''')
   \<and> JString '''' \<noteq> JString ''default''
   \<and> \<not> isl (app [''prNumber'' \<mapsto> JString ''''] example_process)
   \<and> map_option functionName
        (function_of (projr (app [''prNumber'' \<mapsto> JString ''''] example_process)) ''MockApiLambda'')
       = Some ''mock-api-lambda''
   \<and> ''mock-api-lambda'' \<noteq> ''mock-api-lambda-pr-'' @ ''''
   \<and> stackId (projr (app [''prNumber'' \<mapsto> JString ''''] example_process))
       = ''CustomerReviewsIacStack''
   \<and> ''CustomerReviewsIacStack'' \<noteq> ''CustomerReviewsIacStack-'' @ ''''"
proof -
  let ?a = "app [''prNumber'' \<mapsto> JString ''''] example_process"
  have a: "?a = Inr (projr ?a)" using example_app_empty by (rule projr_Inr)
  then have c: "CustomerReviewsIacStack [''prNumber'' \<mapsto> JString ''''] example_process
                  (stackName_of [''prNumber'' \<mapsto> JString '''']) agnostic = Inr (projr ?a)"
    by (simp add: app_def agnostic_def)
  have "map_option functionName (function_of (projr ?a) ''MockApiLambda'') = Some ''mock-api-lambda''"
    by (simp add: function_of_def constructed_lookup [OF c] mockApiLambda_props_def prSuffix_cases
        tryGetContext_def)
  moreover have "stackId (projr ?a) = ''CustomerReviewsIacStack''"
    using app_stack_id [OF a] by (simp add: stackName_cases tryGetContext_def)
  ultimately show ?thesis using example_app_empty by (simp add: tryGetContext_def)
qed

section \<open>Properties of the pipeline\<close>


lemma keeps_exec: "P a \<Longrightarrow> keeps P (perform a)"
  by (simp add: keeps_def perform_def)

lemma keeps_echo: "keeps P sh_echo"
  by (simp add: keeps_def sh_echo_def)

lemma keeps_export: "keeps P sh_export"
  by (simp add: keeps_def sh_export_def)

lemma keeps_exit: "keeps P (sh_exit n)"
  by (simp add: keeps_def sh_exit_def)

lemma keeps_and_then: "keeps P a \<Longrightarrow> keeps P b \<Longrightarrow> keeps P (and_then a b)"
  unfolding keeps_def and_then_def
  by (auto split: prod.splits) (metis snd_conv)+

lemma keeps_or_else: "keeps P a \<Longrightarrow> keeps P b \<Longrightarrow> keeps P (or_else a b)"
  unfolding keeps_def or_else_def
  by (auto split: prod.splits) (metis snd_conv)+

lemmas keeps_intros = keeps_exec keeps_echo keeps_export keeps_exit keeps_and_then keeps_or_else

lemma keepsD: "keeps P sc \<Longrightarrow> list_all P h \<Longrightarrow> list_all P (snd (sc w h))"
  by (simp add: keeps_def)

lemma known_simps:
  "known_action (Exec ''node'' a)" "known_action (Exec ''npm'' a)" "known_action (Exec ''npx'' a)"
  "known_action (Exec ''which'' a)" "known_action (Exec ''cat'' a)" "known_action (Aws p a)"
  "known_action find_aws" "known_action (grep_stackName e)"
  "known_action ScmCheckout" "known_action (GitCheckout d u b)" "known_action (CredentialsBinding c)"
  by (simp_all add: known_action_def external_programs_def find_aws_def grep_stackName_def)

lemma keeps_setup_node: "keeps known_action setup_node_sh"
  unfolding setup_node_sh_def by (intro keeps_intros known_simps)

lemma keeps_install: "keeps known_action install_sh"
  unfolding install_sh_def by (intro keeps_intros known_simps)

lemma keeps_read_config: "keeps known_action (read_config_sh e)"
proof -
  have a: "keeps known_action (and_then sh_echo (and_then (perform (Exec ''cat'' (CONFIG_FILE e))) sh_export))"
    by (intro keeps_intros known_simps)
  have b: "keeps known_action (and_then sh_echo sh_export)"
    by (intro keeps_intros)
  show ?thesis
    using a b by (simp add: keeps_def read_config_sh_def)
qed

lemma which_aws_known: "list_all known_action h \<Longrightarrow> list_all known_action (snd (which_aws w h))"
  by (simp add: which_aws_def known_simps split: prod.splits)

lemma locate_aws_known: "list_all known_action h \<Longrightarrow> list_all known_action (snd (locate_aws w h))"
  using which_aws_known [of h w]
  by (auto simp: locate_aws_def Let_def known_simps split: prod.splits)

lemma keeps_bootstrap_if_needed: "keeps known_action (bootstrap_if_needed e cli)"
  by (simp add: keeps_def bootstrap_if_needed_def Let_def known_simps and_then_def sh_echo_def
      perform_def)

lemma keeps_bootstrap: "keeps known_action (bootstrap_sh e)"
  unfolding keeps_def
proof (intro allI impI)
  fix w h assume h: "list_all known_action h"
  obtain rc cli h1 where l: "locate_aws w h = ((rc, cli), h1)" by (metis surj_pair)
  with locate_aws_known [OF h, of w] have h1: "list_all known_action h1" by simp
  from keepsD [OF keeps_bootstrap_if_needed h1]
  show "list_all known_action (snd (bootstrap_sh e w h))"
    using l h1 by (simp add: bootstrap_sh_def and_then_def sh_echo_def sh_exit_def)
qed

lemma keeps_synth: "keeps known_action (synth_sh e)"
  unfolding synth_sh_def cdk_synth_def by (intro keeps_intros known_simps)

lemma STACK_NAME_known: "list_all known_action h \<Longrightarrow> list_all known_action (snd (STACK_NAME e w h))"
  by (simp add: STACK_NAME_def known_simps split: prod.splits)

lemma keeps_deploy: "keeps known_action (deploy_sh e)"
  unfolding keeps_def
proof (intro allI impI)
  fix w h assume h: "list_all known_action h"
  obtain rc name h1 where l: "STACK_NAME e w h = ((rc, name), h1)" by (metis surj_pair)
  with STACK_NAME_known [OF h, of e w] have h1: "list_all known_action h1" by simp
  have "keeps known_action (and_then sh_echo
                 (and_then (or_else (perform (cdk_deploy e)) (and_then sh_echo (sh_exit 1)))
                    sh_echo))"
    unfolding cdk_deploy_def by (intro keeps_intros known_simps)
  from keepsD [OF this h1]
  show "list_all known_action (snd (deploy_sh e w h))"
    using l h1 by (simp add: deploy_sh_def)
qed

lemma keeps_display: "keeps known_action (display_sh e)"
  unfolding keeps_def
proof (intro allI impI)
  fix w h assume h: "list_all known_action h"
  obtain rc name h1 where l: "STACK_NAME e w h = ((rc, name), h1)" by (metis surj_pair)
  with STACK_NAME_known [OF h, of e w] have h1: "list_all known_action h1" by simp
  obtain cli h2 where wh: "which_aws w h1 = (cli, h2)" by (metis surj_pair)
  with which_aws_known [OF h1, of w] have h2: "list_all known_action h2" by simp
  have "keeps known_action (and_then sh_echo
                          (or_else (perform (describe_outputs e cli name)) sh_echo))"
    unfolding describe_outputs_def by (intro keeps_intros known_simps)
  from keepsD [OF this h2]
  show "list_all known_action (snd (display_sh e w h))"
    using l h1 wh h2 by (simp add: display_sh_def)
qed

lemma run_step_known:
  "step_keeps s \<Longrightarrow> list_all known_action h \<Longrightarrow> list_all known_action (snd (run_step w s h))"
proof (cases s)
  case (WithCredentials_sh c sc)
  assume "step_keeps s" "list_all known_action h"
  with WithCredentials_sh have "keeps known_action (and_then (perform (CredentialsBinding c)) sc)"
    by (intro keeps_intros known_simps) simp
  from keepsD [OF this \<open>list_all known_action h\<close>] WithCredentials_sh show ?thesis by simp
qed (simp_all add: perform_def known_simps keeps_def)

lemma run_steps_known:
  "list_all step_keeps ss \<Longrightarrow> list_all known_action h \<Longrightarrow> list_all known_action (snd (run_steps w ss h))"
proof (induction ss arbitrary: h)
  case Nil then show ?case by simp
next
  case (Cons s ss)
  obtain rc h' where r: "run_step w s h = (rc, h')" by (metis surj_pair)
  with run_step_known [of s h w] Cons.prems have h': "list_all known_action h'" by simp
  show ?case using r h' Cons.IH [of h'] Cons.prems by simp
qed

lemma run_stage_known:
  "list_all step_keeps (stage_steps st e) \<Longrightarrow> list_all known_action (performed r) \<Longrightarrow>
   list_all known_action (performed (run_stage w e st r))"
  using run_steps_known [of "stage_steps st e" "performed r" w]
  by (auto simp: run_stage_def split: prod.splits)

lemma run_stages_known:
  "list_all (\<lambda>st. list_all step_keeps (stage_steps st e)) sts \<Longrightarrow> list_all known_action (performed r) \<Longrightarrow>
   list_all known_action (performed (run_stages w e sts r))"
  by (induction sts arbitrary: r) (simp_all add: run_stage_known)

lemma stages_keep: "list_all (\<lambda>st. list_all step_keeps (stage_steps st e)) stages"
  by (simp add: stages_def checkout_infrastructure_def checkout_app_def setup_node_def
      install_dependencies_def read_pr_configuration_def bootstrap_cdk_def synthesize_cdk_def
      deploy_cdk_stack_def display_stack_outputs_def banner_def
      keeps_setup_node keeps_install keeps_read_config keeps_bootstrap keeps_synth keeps_deploy
      keeps_display)

lemma pipeline_known: "list_all known_action (performed (pipeline w e))"
  unfolding pipeline_def by (rule run_stages_known [OF stages_keep]) (simp add: start_def)

lemma run_stages_failed: "\<not> succeeded r \<Longrightarrow> run_stages w e sts r = r"
  by (induction sts) (simp_all add: run_stage_def)

lemma run_stages_entered:
  "\<exists>k. entered (run_stages w e sts r) = entered r @ take k (enabled_names e sts)"
proof (induction sts arbitrary: r)
  case Nil
  show ?case by (simp add: enabled_names_def)
next
  case (Cons st sts)
  show ?case
  proof (cases "succeeded r \<and> stage_when st e")
    case False
    then have same: "run_stage w e st r = r" by (auto simp: run_stage_def)
    from Cons.IH [of r] obtain k where
      k: "entered (run_stages w e sts r) = entered r @ take k (enabled_names e sts)" by blast
    show ?thesis
    proof (cases "stage_when st e")
      case True
      with False have "\<not> succeeded r" by simp
      then have "run_stages w e (st # sts) r = r" by (rule run_stages_failed)
      then have "entered (run_stages w e (st # sts) r) = entered r @ take 0 (enabled_names e (st # sts))"
        by simp
      then show ?thesis by blast
    next
      case False
      then have "enabled_names e (st # sts) = enabled_names e sts" by (simp add: enabled_names_def)
      with k same show ?thesis by auto
    qed
  next
    case True
    then have ent: "entered (run_stage w e st r) = entered r @ [stage_name st]"
      by (simp add: run_stage_def split: prod.splits)
    from Cons.IH [of "run_stage w e st r"] obtain k where
      "entered (run_stages w e sts (run_stage w e st r))
         = entered (run_stage w e st r) @ take k (enabled_names e sts)" by blast
    with ent True have "entered (run_stages w e (st # sts) r)
         = entered r @ take (Suc k) (enabled_names e (st # sts))"
      by (simp add: enabled_names_def)
    then show ?thesis by blast
  qed
qed

lemma run_stages_succeeded:
  "succeeded (run_stages w e sts r) \<Longrightarrow>
     entered (run_stages w e sts r) = entered r @ enabled_names e sts"
proof (induction sts arbitrary: r)
  case Nil
  show ?case by (simp add: enabled_names_def)
next
  case (Cons st sts)
  show ?case
  proof (cases "succeeded r")
    case False
    then have "run_stages w e (st # sts) r = r" by (rule run_stages_failed)
    with Cons.prems False show ?thesis by simp
  next
    case True
    from Cons.prems have s: "succeeded (run_stages w e sts (run_stage w e st r))" by simp
    from Cons.IH [OF s] True show ?thesis
      by (auto simp: run_stage_def enabled_names_def split: prod.splits)
  qed
qed

lemmas stage_defs = checkout_infrastructure_def checkout_app_def setup_node_def
      install_dependencies_def read_pr_configuration_def bootstrap_cdk_def synthesize_cdk_def
      deploy_cdk_stack_def display_stack_outputs_def

lemma stage_names: "map stage_name stages =
  [''Checkout Infrastructure Code'', ''Checkout App Code'', ''Setup Node.js'',
   ''Install Dependencies'', ''Read PR Configuration'', ''Bootstrap CDK'',
   ''Synthesize CDK'', ''Deploy CDK Stack'', ''Display Stack Outputs'']"
  by (simp add: stages_def stage_defs)

lemma enabled_names_stages: "enabled_names e stages =
  [''Checkout Infrastructure Code'', ''Checkout App Code'', ''Setup Node.js'',
   ''Install Dependencies'', ''Read PR Configuration'']
  @ (if PR_NUMBER e = ''default'' \<or> BOOTSTRAP_CDK e = Some ''true'' then [''Bootstrap CDK''] else [])
  @ [''Synthesize CDK'', ''Deploy CDK Stack'', ''Display Stack Outputs'']"
  by (simp add: stages_def enabled_names_def stage_defs)

lemma bootstrap_only_when:
  assumes "''Bootstrap CDK'' \<in> set (entered (pipeline w e))"
  shows "PR_NUMBER e = ''default'' \<or> BOOTSTRAP_CDK e = Some ''true''"
proof (rule ccontr)
  assume n: "\<not> ?thesis"
  from run_stages_entered [of w e stages start] obtain k where
    "entered (pipeline w e) = take k (enabled_names e stages)"
    by (auto simp: pipeline_def start_def)
  with assms have "''Bootstrap CDK'' \<in> set (enabled_names e stages)"
    by (auto dest: in_set_takeD)
  with n show False by (simp add: enabled_names_stages)
qed

lemma synth_sh_fails: "fst (outcome w h (cdk_synth e)) \<noteq> 0 \<Longrightarrow> fst (synth_sh e w h) = 1"
  by (simp add: synth_sh_def and_then_def or_else_def perform_def sh_echo_def sh_exit_def
      split: prod.splits)

lemma synth_stage_fails:
  assumes "fst (outcome w (performed r) (cdk_synth e)) \<noteq> 0"
  shows "\<not> succeeded (run_stage w e synthesize_cdk r)"
proof -
  have "fst (synth_sh e w (performed r)) = 1" using assms by (rule synth_sh_fails)
  then show ?thesis
    by (auto simp: run_stage_def synthesize_cdk_def banner_def split: prod.splits)
qed

lemma synth_stage_performs:
  assumes "succeeded r"
  shows "performed (run_stage w e synthesize_cdk r) = performed r @ [cdk_synth e]"
    and "entered (run_stage w e synthesize_cdk r) = entered r @ [''Synthesize CDK'']"
  using assms
  by (simp_all add: run_stage_def synthesize_cdk_def banner_def synth_sh_def and_then_def
      or_else_def perform_def sh_echo_def sh_exit_def split: prod.splits)

lemma run_stages_append:
  "run_stages w e (xs @ ys) r = run_stages w e ys (run_stages w e xs r)"
  by (induction xs arbitrary: r) simp_all

lemma entered_run_stage:
  "set (entered (run_stage w e st r)) \<subseteq> insert (stage_name st) (set (entered r))"
  by (auto simp: run_stage_def split: prod.splits)

lemma pipeline_after_synthesis:
  "pipeline w e =
     run_stages w e [deploy_cdk_stack, display_stack_outputs]
       (run_stage w e synthesize_cdk (before_synthesis w e))"
  by (simp add: pipeline_def stages_def before_synthesis_def)

lemma entered_before_synthesis:
  "set (entered (before_synthesis w e))
     \<subseteq> {''Checkout Infrastructure Code'', ''Checkout App Code'', ''Setup Node.js'',
         ''Install Dependencies'', ''Read PR Configuration'', ''Bootstrap CDK''}"
proof -
  let ?pre = "[checkout_infrastructure, checkout_app, setup_node, install_dependencies,
      read_pr_configuration, bootstrap_cdk]"
  from run_stages_entered [of w e ?pre start] obtain k where
    "entered (before_synthesis w e) = take k (enabled_names e ?pre)"
    by (auto simp: start_def before_synthesis_def)
  then have "set (entered (before_synthesis w e)) \<subseteq> set (enabled_names e ?pre)"
    by (simp add: set_take_subset)
  also have "\<dots> \<subseteq> set (map stage_name ?pre)" by (auto simp: enabled_names_def)
  finally show ?thesis by (simp add: stage_defs)
qed

text \<open>
  When the stages before it have failed, or synthesis fails at the history the run has
  reached, the run ends failed with the stage Synthesize CDK at the latest.
\<close>

lemma stopped_at_synthesis:
  assumes "\<not> succeeded (before_synthesis w e)
           \<or> fst (outcome w (performed (before_synthesis w e)) (cdk_synth e)) \<noteq> 0"
  shows "pipeline w e = run_stage w e synthesize_cdk (before_synthesis w e)"
    and "\<not> succeeded (pipeline w e)"
    and "''Deploy CDK Stack'' \<notin> set (entered (pipeline w e))"
proof -
  let ?r1 = "before_synthesis w e"
  let ?r2 = "run_stage w e synthesize_cdk ?r1"
  have f: "\<not> succeeded ?r2"
  proof (cases "succeeded ?r1")
    case False
    then show ?thesis by (simp add: run_stage_def)
  next
    case True
    with assms have "fst (outcome w (performed ?r1) (cdk_synth e)) \<noteq> 0" by simp
    then show ?thesis by (rule synth_stage_fails)
  qed
  have "pipeline w e = run_stages w e [deploy_cdk_stack, display_stack_outputs] ?r2"
    by (rule pipeline_after_synthesis)
  also have "\<dots> = ?r2" using f by (rule run_stages_failed)
  finally show p: "pipeline w e = ?r2" .
  from p f show "\<not> succeeded (pipeline w e)" by simp
  have "''Deploy CDK Stack'' \<notin> set (entered ?r1)"
    using entered_before_synthesis [of w e] by auto
  moreover have "stage_name synthesize_cdk \<noteq> ''Deploy CDK Stack''"
    by (simp add: synthesize_cdk_def)
  ultimately have "''Deploy CDK Stack'' \<notin> set (entered ?r2)"
    using entered_run_stage [of w e synthesize_cdk ?r1] by auto
  with p show "''Deploy CDK Stack'' \<notin> set (entered (pipeline w e))" by simp
qed

lemma synthesis_entered_iff:
  "''Synthesize CDK'' \<in> set (entered (pipeline w e)) \<longleftrightarrow> succeeded (before_synthesis w e)"
proof
  assume s: "''Synthesize CDK'' \<in> set (entered (pipeline w e))"
  show "succeeded (before_synthesis w e)"
  proof (rule ccontr)
    assume n: "\<not> succeeded (before_synthesis w e)"
    then have "pipeline w e = run_stage w e synthesize_cdk (before_synthesis w e)"
      by (simp add: stopped_at_synthesis(1))
    also have "\<dots> = before_synthesis w e" using n by (simp add: run_stage_def)
    finally have "entered (pipeline w e) = entered (before_synthesis w e)" by simp
    with s entered_before_synthesis [of w e] show False by auto
  qed
next
  assume ok: "succeeded (before_synthesis w e)"
  let ?r2 = "run_stage w e synthesize_cdk (before_synthesis w e)"
  from run_stages_entered [of w e "[deploy_cdk_stack, display_stack_outputs]" ?r2]
  obtain k where "entered (pipeline w e)
      = entered ?r2 @ take k (enabled_names e [deploy_cdk_stack, display_stack_outputs])"
    by (auto simp: pipeline_after_synthesis)
  with synth_stage_performs(2) [OF ok, of w e]
  show "''Synthesize CDK'' \<in> set (entered (pipeline w e))" by simp
qed

lemma checkout_steps:
  "snd (run_steps w (stage_steps checkout_infrastructure e) h) = h @ [ScmCheckout]"
  "snd (run_steps w (stage_steps checkout_app e) h)
     = h @ [GitCheckout ''customer-reviews-app''
              ''https://github.com/DeepakDevProjects/customer-reviews-app.git'' ''*/main'']"
  by (simp_all add: checkout_infrastructure_def checkout_app_def banner_def perform_def
      split: prod.splits)

lemma shell_steps: "map (\<lambda>st. length (filter is_shell_step (stage_steps st e))) stages
   = [0, 0, 1, 1, 1, 1, 1, 1, 1]"
  by (simp add: stages_def stage_defs banner_def)

lemmas script_defs = setup_node_sh_def install_sh_def read_config_sh_def bootstrap_sh_def synth_sh_def
   deploy_sh_def display_sh_def and_then_def or_else_def perform_def sh_echo_def sh_export_def
   sh_exit_def locate_aws_def which_aws_def bootstrap_if_needed_def STACK_NAME_def CONFIG_FILE_def
   chomp_def cdk_synth_def cdk_deploy_def describe_outputs_def find_aws_def grep_stackName_def

lemmas run_defs = pipeline_def before_synthesis_def stages_def stage_defs start_def run_stage_def
   banner_def environment_def elvis_def script_defs

section \<open>Claims about the pipeline\<close>

text \<open>
  C4 (amended). In every run the stages entered are, in this order, an initial part of
  Checkout Infrastructure Code, Checkout App Code, Setup Node.js, Install Dependencies,
  Read PR Configuration, Bootstrap CDK (present only when \<open>PR_NUMBER\<close> is \<open>default\<close> or
  \<open>BOOTSTRAP_CDK\<close> is \<open>true\<close>), Synthesize CDK, Deploy CDK Stack, Display Stack Outputs,
  and a run that succeeds enters all of them. The two checkout stages have no shell step
  and perform the checkout of Jenkins and nothing else; every later stage has exactly one
  shell step, and every program a run executes is one of \<open>node\<close>, \<open>npm\<close>, \<open>npx\<close>,
  \<open>aws\<close>, \<open>which\<close>, \<open>find\<close>, \<open>head\<close>, \<open>cat\<close>, \<open>grep\<close>, \<open>cut\<close>. The stage Synthesize CDK
  is entered exactly when every stage before it succeeded, and then runs \<open>cdk synth\<close> at
  the history the run has reached; a failed synthesis ends its shell step with status 1;
  when synthesis fails at the history the run has reached, the deploy stage is not
  entered and the run fails; and the deploy stage is entered only in a run whose
  synthesis was run and succeeded.
\<close>

theorem C4_stage_order_and_synth_gate:
  "map stage_name stages =
     [''Checkout Infrastructure Code'', ''Checkout App Code'', ''Setup Node.js'',
      ''Install Dependencies'', ''Read PR Configuration'', ''Bootstrap CDK'',
      ''Synthesize CDK'', ''Deploy CDK Stack'', ''Display Stack Outputs'']
   \<and> enabled_names e stages =
     [''Checkout Infrastructure Code'', ''Checkout App Code'', ''Setup Node.js'',
      ''Install Dependencies'', ''Read PR Configuration'']
     @ (if PR_NUMBER e = ''default'' \<or> BOOTSTRAP_CDK e = Some ''true'' then [''Bootstrap CDK''] else [])
     @ [''Synthesize CDK'', ''Deploy CDK Stack'', ''Display Stack Outputs'']
   \<and> (\<exists>k. entered (pipeline w e) = take k (enabled_names e stages))
   \<and> (succeeded (pipeline w e) \<longrightarrow> entered (pipeline w e) = enabled_names e stages)
   \<and> (''Bootstrap CDK'' \<in> set (entered (pipeline w e)) \<longrightarrow>
        PR_NUMBER e = ''default'' \<or> BOOTSTRAP_CDK e = Some ''true'')
   \<and> map (\<lambda>st. length (filter is_shell_step (stage_steps st e))) stages = [0, 0, 1, 1, 1, 1, 1, 1, 1]
   \<and> (\<forall>h. snd (run_steps w (stage_steps checkout_infrastructure e) h) = h @ [ScmCheckout])
   \<and> (\<forall>h. snd (run_steps w (stage_steps checkout_app e) h)
            = h @ [GitCheckout ''customer-reviews-app''
                     ''https://github.com/DeepakDevProjects/customer-reviews-app.git'' ''*/main''])
   \<and> list_all known_action (performed (pipeline w e))
   \<and> (''Synthesize CDK'' \<in> set (entered (pipeline w e)) \<longleftrightarrow> succeeded (before_synthesis w e))
   \<and> (succeeded (before_synthesis w e) \<longrightarrow>
        performed (run_stage w e synthesize_cdk (before_synthesis w e))
          = performed (before_synthesis w e) @ [cdk_synth e])
   \<and> (\<forall>h. fst (outcome w h (cdk_synth e)) \<noteq> 0 \<longrightarrow> fst (synth_sh e w h) = 1)
   \<and> (fst (outcome w (performed (before_synthesis w e)) (cdk_synth e)) \<noteq> 0 \<longrightarrow>
        ''Deploy CDK Stack'' \<notin> set (entered (pipeline w e)) \<and> \<not> succeeded (pipeline w e))
   \<and> (''Deploy CDK Stack'' \<in> set (entered (pipeline w e)) \<longrightarrow>
        succeeded (before_synthesis w e)
        \<and> fst (outcome w (performed (before_synthesis w e)) (cdk_synth e)) = 0)"
proof -
  have order: "\<exists>k. entered (pipeline w e) = take k (enabled_names e stages)"
    using run_stages_entered [of w e stages start] by (simp add: pipeline_def start_def)
  have all: "succeeded (pipeline w e) \<longrightarrow> entered (pipeline w e) = enabled_names e stages"
    using run_stages_succeeded [of w e stages start] by (simp add: pipeline_def start_def)
  have runs: "succeeded (before_synthesis w e) \<longrightarrow>
        performed (run_stage w e synthesize_cdk (before_synthesis w e))
          = performed (before_synthesis w e) @ [cdk_synth e]"
    by (simp add: synth_stage_performs(1))
  have gate: "fst (outcome w (performed (before_synthesis w e)) (cdk_synth e)) \<noteq> 0 \<longrightarrow>
        ''Deploy CDK Stack'' \<notin> set (entered (pipeline w e)) \<and> \<not> succeeded (pipeline w e)"
    using stopped_at_synthesis(2,3) [of w e] by blast
  have only: "''Deploy CDK Stack'' \<in> set (entered (pipeline w e)) \<longrightarrow>
        succeeded (before_synthesis w e)
        \<and> fst (outcome w (performed (before_synthesis w e)) (cdk_synth e)) = 0"
    using stopped_at_synthesis(3) [of w e] by blast
  show ?thesis
    using stage_names enabled_names_stages [of e] order all bootstrap_only_when [of w e]
      shell_steps [of e] checkout_steps [of w e] pipeline_known [of w e]
      synthesis_entered_iff [of w e] runs synth_sh_fails [of w _ e] gate only
    by (intro conjI) blast+
qed

text \<open>
  The amended claim in two runs with the default parameters: on the agent where
  \<open>cdk synth\<close> fails once something has been done before it, and on the agent where
  everything succeeds.
\<close>

theorem C4_stage_order_and_synth_gate_witness:
  "fst (outcome failing_agent [] (cdk_synth (environment None None None))) = 0
   \<and> succeeded (before_synthesis failing_agent (environment None None None))
   \<and> fst (outcome failing_agent
             (performed (before_synthesis failing_agent (environment None None None)))
             (cdk_synth (environment None None None))) \<noteq> 0
   \<and> PR_NUMBER (environment None None None) = ''default''
   \<and> entered (pipeline failing_agent (environment None None None)) =
       [''Checkout Infrastructure Code'', ''Checkout App Code'', ''Setup Node.js'',
        ''Install Dependencies'', ''Read PR Configuration'', ''Bootstrap CDK'', ''Synthesize CDK'']
   \<and> ''Deploy CDK Stack'' \<notin> set (entered (pipeline failing_agent (environment None None None)))
   \<and> \<not> succeeded (pipeline failing_agent (environment None None None))
   \<and> succeeded (pipeline example_agent (environment None None None))
   \<and> entered (pipeline example_agent (environment None None None)) =
       [''Checkout Infrastructure Code'', ''Checkout App Code'', ''Setup Node.js'',
        ''Install Dependencies'', ''Read PR Configuration'', ''Bootstrap CDK'', ''Synthesize CDK'',
        ''Deploy CDK Stack'', ''Display Stack Outputs'']
   \<and> fst (outcome example_agent
             (performed (before_synthesis example_agent (environment None None None)))
             (cdk_synth (environment None None None))) = 0"
proof -
  let ?e = "environment None None None"
  have empty: "fst (outcome failing_agent [] (cdk_synth ?e)) = 0"
    by (simp add: failing_agent_def)
  have before: "succeeded (before_synthesis failing_agent ?e)"
    and reached: "performed (before_synthesis failing_agent ?e) \<noteq> []"
    by (simp_all add: run_defs failing_agent_def)
  from reached have fails:
    "fst (outcome failing_agent (performed (before_synthesis failing_agent ?e)) (cdk_synth ?e)) \<noteq> 0"
    by (simp add: failing_agent_def cdk_synth_def environment_def elvis_def)
  have pr: "PR_NUMBER ?e = ''default''"
    by (simp add: environment_def elvis_def)
  have run0: "entered (pipeline failing_agent ?e) =
       [''Checkout Infrastructure Code'', ''Checkout App Code'', ''Setup Node.js'',
        ''Install Dependencies'', ''Read PR Configuration'', ''Bootstrap CDK'', ''Synthesize CDK'']"
    by (simp add: run_defs failing_agent_def)
  have ok1: "succeeded (pipeline example_agent ?e)"
    by (simp add: run_defs example_agent_def)
  from C4_stage_order_and_synth_gate [of ?e failing_agent] fails
  have gate: "''Deploy CDK Stack'' \<notin> set (entered (pipeline failing_agent ?e))
              \<and> \<not> succeeded (pipeline failing_agent ?e)"
    by blast
  from C4_stage_order_and_synth_gate [of ?e example_agent] ok1
  have "entered (pipeline example_agent ?e) = enabled_names ?e stages" by blast
  with C4_stage_order_and_synth_gate [of ?e example_agent] pr
  have run1: "entered (pipeline example_agent ?e) =
       [''Checkout Infrastructure Code'', ''Checkout App Code'', ''Setup Node.js'',
        ''Install Dependencies'', ''Read PR Configuration'', ''Bootstrap CDK'', ''Synthesize CDK'',
        ''Deploy CDK Stack'', ''Display Stack Outputs'']"
    by simp
  then have "''Deploy CDK Stack'' \<in> set (entered (pipeline example_agent ?e))" by simp
  with C4_stage_order_and_synth_gate [of ?e example_agent]
  have synth1: "fst (outcome example_agent (performed (before_synthesis example_agent ?e))
                       (cdk_synth ?e)) = 0"
    by blast
  from empty before fails pr run0 gate ok1 run1 synth1 show ?thesis by blast
qed

text \<open>
  C4 as first stated has the steps of each stage be invocations of \<open>npm\<close>, \<open>aws\<close> or
  \<open>npx cdk\<close>. The first stage has no shell step and only performs the checkout of
  Jenkins, which runs no program; Setup Node.js runs \<open>node\<close>.
\<close>

theorem C4_steps_counterexample:
  "filter is_shell_step (stage_steps checkout_infrastructure (environment None None None)) = []
   \<and> performed (run_stage example_agent (environment None None None) checkout_infrastructure start)
       = [ScmCheckout]
   \<and> programs ScmCheckout = []
   \<and> performed (run_stage example_agent (environment None None None) setup_node start)
       = [Exec ''node'' ''--version'', Exec ''npm'' ''--version'']
   \<and> programs (Exec ''node'' ''--version'') = [''node'']
   \<and> ''node'' \<notin> set [''npm'', ''aws'', ''npx'']"
  by (simp add: stage_defs start_def run_stage_def banner_def environment_def elvis_def script_defs
      example_agent_def)

lemma example_app_default: "\<not> isl (app (cli_context ''default'') example_process)"
proof -
  have "names_accepted (cli_context ''default'') example_process
          (stackName_of (cli_context ''default'')) agnostic"
    by (simp add: names_accepted_def sanitizeId_def prSuffix_cases stackName_cases cli_context_def
        tryGetContext_def agnostic_def valid_function_name_chars_def char_defs)
  then show ?thesis using example_assets by (rule app_constructs)
qed

text \<open>
  C10 (the code departs from it). The claim is that the stack name the pipeline falls
  back to is the name of the stack the app constructs, also for \<open>default\<close>. With the
  default parameters and no configuration file the pipeline computes
  \<open>CustomerReviewsIacStack-default\<close>, while the app, given the same number as context,
  gives the stack the id \<open>CustomerReviewsIacStack\<close>, and every stack it constructs for
  that context has this id and name.
\<close>

theorem C10_default_stack_name_differs:
  "PR_NUMBER (environment None None None) = ''default''
   \<and> fst (STACK_NAME (environment None None None) \<lparr>outcome = answer, is_file = (\<lambda>h p. False)\<rparr> h)
       = (0, ''CustomerReviewsIacStack-default'')
   \<and> stackName_of (cli_context (PR_NUMBER (environment None None None)))
       = ''CustomerReviewsIacStack''
   \<and> (app (cli_context (PR_NUMBER (environment None None None))) sys = Inr s \<longrightarrow>
        stackId s = ''CustomerReviewsIacStack'' \<and> stackName s = ''CustomerReviewsIacStack'')"
proof -
  have pr: "PR_NUMBER (environment None None None) = ''default''"
    by (simp add: environment_def elvis_def)
  have nm: "stackName_of (cli_context ''default'') = ''CustomerReviewsIacStack''"
    by (simp add: stackName_cases cli_context_def tryGetContext_def)
  have fb: "fst (STACK_NAME (environment None None None)
                   \<lparr>outcome = answer, is_file = (\<lambda>h p. False)\<rparr> h)
       = (0, ''CustomerReviewsIacStack-default'')"
    by (simp add: environment_def elvis_def STACK_NAME_def)
  have "stackId s = ''CustomerReviewsIacStack'' \<and> stackName s = ''CustomerReviewsIacStack''"
    if "app (cli_context ''default'') sys = Inr s"
    using app_stack_id [OF that] nm by simp
  with pr nm fb show ?thesis by simp
qed

text \<open>The stack the app constructs in the example for the default deployment.\<close>

theorem C10_default_stack_name_differs_witness:
  "\<not> isl (app (cli_context (PR_NUMBER (environment None None None))) example_process)
   \<and> stackName (projr (app (cli_context (PR_NUMBER (environment None None None))) example_process))
       = ''CustomerReviewsIacStack''
   \<and> stackId (projr (app (cli_context (PR_NUMBER (environment None None None))) example_process))
       = ''CustomerReviewsIacStack''"
proof -
  have pr: "PR_NUMBER (environment None None None) = ''default''"
    by (simp add: environment_def elvis_def)
  from C10_default_stack_name_differs
         [of answer h example_process
             "projr (app (cli_context (PR_NUMBER (environment None None None))) example_process)"]
       projr_Inr [OF example_app_default] example_app_default pr
  show ?thesis by simp
qed

text \<open>For every other number the pipeline can pass, the two names agree.\<close>

lemma fallback_stack_name_agrees:
  "pr \<noteq> '''' \<Longrightarrow> pr \<noteq> ''default'' \<Longrightarrow> \<not> is_file w h (CONFIG_FILE e) \<Longrightarrow> PR_NUMBER e = pr \<Longrightarrow>
   snd (fst (STACK_NAME e w h)) = stackName_of (cli_context pr)"
  by (simp add: STACK_NAME_def stackName_cases cli_context_def tryGetContext_def)


end
